theory Spec2Isabelle
  imports Complex_Main "HOL-Library.Sublist" "HOL-Library.AList"
begin

section \<open>Python strings\<close>

text \<open>
  A Python \<open>str\<close> is a sequence of Unicode code points, and \<open>len\<close> counts code points.
  Isabelle's \<open>char\<close> has 256 values only, so a string of the program is modelled as the
  list of its code points. \<open>str\<close> turns an ASCII literal into that representation.
\<close>

type_synonym pystr = "nat list"

definition str :: "string \<Rightarrow> pystr" where
  "str s = map of_char s"

text \<open>Python's \<open>needle in hay\<close> on strings: \<open>needle\<close> occurs as a contiguous slice.\<close>

fun contains :: "'a list \<Rightarrow> 'a list \<Rightarrow> bool" where
  "contains needle [] = (needle = [])"
| "contains needle (c # cs) = (prefix needle (c # cs) \<or> contains needle cs)"

text \<open>
  The characters for which \<open>str.isspace\<close> holds; \<open>str.strip()\<close> without argument removes
  them from both ends.
\<close>

definition isspace :: "nat \<Rightarrow> bool" where
  "isspace c \<longleftrightarrow> (0x09 \<le> c \<and> c \<le> 0x0D) \<or> (0x1C \<le> c \<and> c \<le> 0x20) \<or> c = 0x85 \<or> c = 0xA0
     \<or> c = 0x1680 \<or> (0x2000 \<le> c \<and> c \<le> 0x200A) \<or> c = 0x2028 \<or> c = 0x2029
     \<or> c = 0x202F \<or> c = 0x205F \<or> c = 0x3000"

definition lstrip :: "pystr \<Rightarrow> pystr" where
  "lstrip s = dropWhile isspace s"

definition rstrip :: "pystr \<Rightarrow> pystr" where
  "rstrip s = rev (dropWhile isspace (rev s))"

definition strip :: "pystr \<Rightarrow> pystr" where
  "strip s = rstrip (lstrip s)"


section \<open>optimized\_video\_downloader.py: configuration and results\<close>

text \<open>
  One entry of \<open>VideoDownloaderConfig.supported_sites\<close>. The dict keeps insertion order, so
  the table is an association list.
\<close>

record site_info =
  domain :: pystr
  referer :: pystr
  formats :: "pystr list"

definition bilibili_info :: site_info where
  "bilibili_info = \<lparr> domain = str ''bilibili.com'', referer = str ''https://www.bilibili.com/'',
     formats = [str ''100024+30280'', str ''100023+30232'', str ''100022+30216''] \<rparr>"

definition sohu_info :: site_info where
  "sohu_info = \<lparr> domain = str ''sohu.com'', referer = str ''https://tv.sohu.com/'',
     formats = [str ''best'', str ''worst''] \<rparr>"

definition kan360_info :: site_info where
  "kan360_info = \<lparr> domain = str ''360kan.com'', referer = str ''https://tv.360kan.com/'',
     formats = [str ''best'', str ''worst''] \<rparr>"

definition supported_sites :: "(pystr \<times> site_info) list" where
  "supported_sites =
     [(str ''bilibili'', bilibili_info), (str ''sohu'', sohu_info), (str ''360kan'', kan360_info)]"

definition download_dir :: pystr where
  "download_dir = str ''downloads''"

text \<open>\<open>config.user_agents[0]\<close>\<close>

definition user_agent0 :: pystr where
  "user_agent0 = str ''Mozilla/5.0 (Windows NT 10.0; Win64; x64) AppleWebKit/537.36 (KHTML, like Gecko) Chrome/91.0.4472.124 Safari/537.36''"

text \<open>The \<open>status\<close> field is a string with the four values its comment lists.\<close>

datatype status = Pending | Success | Failed | Error

record DownloadResult =
  url :: pystr
  site :: pystr
  status :: status
  files :: "pystr list"
  error_message :: pystr
  download_time :: real
  file_size :: int

text \<open>\<open>DownloadResult.__init__\<close>\<close>

definition new_result :: "pystr \<Rightarrow> pystr \<Rightarrow> DownloadResult" where
  "new_result u s = \<lparr> url = u, site = s, status = Pending, files = [], error_message = [],
     download_time = 0, file_size = 0 \<rparr>"


section \<open>Site detection\<close>

text \<open>
  \<open>OptimizedVideoDownloader.detect_site\<close> (and the identical \<open>SiteHandler.detect_site\<close>):
  the loop over \<open>supported_sites.items()\<close> tests \<open>info['domain'] in url\<close>, on the whole URL.
\<close>

fun detect_site_in :: "(pystr \<times> site_info) list \<Rightarrow> pystr \<Rightarrow> pystr" where
  "detect_site_in [] u = str ''unknown''"
| "detect_site_in ((s, info) # rest) u =
     (if contains (domain info) u then s else detect_site_in rest u)"

definition detect_site :: "pystr \<Rightarrow> pystr" where
  "detect_site u = detect_site_in supported_sites u"

text \<open>
  \<open>DownloaderConfig.detect_site\<close> of config.py runs the same loop over \<open>SITE_CONFIGS\<close>; of
  each site's dict it reads the \<open>'domain'\<close> entry only, which is all the table below keeps.
\<close>

definition SITE_CONFIGS :: "(pystr \<times> pystr) list" where
  "SITE_CONFIGS = [(str ''bilibili'', str ''bilibili.com''), (str ''sohu'', str ''sohu.com''),
     (str ''360kan'', str ''360kan.com''), (str ''youtube'', str ''youtube.com'')]"

fun config_detect_site_in :: "(pystr \<times> pystr) list \<Rightarrow> pystr \<Rightarrow> pystr" where
  "config_detect_site_in [] u = str ''unknown''"
| "config_detect_site_in ((s, d) # rest) u =
     (if contains d u then s else config_detect_site_in rest u)"

definition config_detect_site :: "pystr \<Rightarrow> pystr" where
  "config_detect_site u = config_detect_site_in SITE_CONFIGS u"

text \<open>
  \<open>VideoDownloader.download_video\<close> of video\_downloader.py selects its handler differently:
  it takes \<open>urlparse(url).netloc.lower()\<close> and tests \<open>site in domain\<close> against the keys of its
  own \<open>supported_sites\<close>, in insertion order. \<open>urlparse\<close> is library code; the function below
  starts from the host it returned.
\<close>

datatype extractor = Baidu | Bilibili | Pinshan | Sohu | Kan360

definition vd_supported_sites :: "(pystr \<times> extractor) list" where
  "vd_supported_sites = [(str ''baike.baidu.com'', Baidu), (str ''bilibili.com'', Bilibili),
     (str ''pinshan.com'', Pinshan), (str ''sohu.com'', Sohu), (str ''360kan.com'', Kan360)]"

fun select_handler_in :: "(pystr \<times> extractor) list \<Rightarrow> pystr \<Rightarrow> extractor option" where
  "select_handler_in [] host = None"
| "select_handler_in ((s, h) # rest) host =
     (if contains s host then Some h else select_handler_in rest host)"

definition select_handler :: "pystr \<Rightarrow> extractor option" where
  "select_handler host = select_handler_in vd_supported_sites host"


section \<open>The site handlers\<close>

text \<open>
  What \<open>subprocess.run(cmd, capture_output=True, text=True, timeout=...)\<close> can do: return a
  completed process (exit status and captured stderr; the third field is the wall-clock
  time the call took, which the handler measures around it), raise \<open>TimeoutExpired\<close>, or
  raise another exception whose \<open>str(e)\<close> is given. The resolver runs over the network, so
  its answer may change between attempts: the environment is a function of the number of
  invocations made before and of the command line.
\<close>

datatype proc = Completed int pystr real | TimeoutExpired | Raised pystr

type_synonym runner = "nat \<Rightarrow> pystr list \<Rightarrow> proc"

text \<open>The message of the \<open>TimeoutExpired\<close> branch: four CJK characters (U+4E0B, U+8F7D,
  U+8D85, U+65F6), then \<open> (>{self.config.timeout}s)\<close> with \<open>timeout = 180\<close>.\<close>

definition timeout_message :: pystr where
  "timeout_message = [0x4E0B, 0x8F7D, 0x8D85, 0x65F6] @ str '' (>180s)''"

text \<open>
  The command line of the three handlers. They differ in the site's table entry and in the
  prefix of the output template (\<open>bilibili_opt_\<close>, \<open>sohu_opt_\<close>, \<open>360kan_opt_\<close>).
\<close>

definition ytdlp_cmd :: "pystr \<Rightarrow> site_info \<Rightarrow> pystr \<Rightarrow> pystr \<Rightarrow> pystr list" where
  "ytdlp_cmd pre info u format_str =
     [str ''yt-dlp'', str ''--format'', format_str,
      str ''--output'', download_dir @ str ''/'' @ pre @ str ''%(title)s.%(ext)s'',
      str ''--user-agent'', user_agent0, str ''--referer'', referer info, u]"

text \<open>
  The body of \<open>for format_str in site_config['formats']\<close>, with the statements after the
  loop as the base case. The state is the result object and the list of the command lines
  run so far.
\<close>

fun try_formats :: "runner \<Rightarrow> (pystr \<Rightarrow> pystr list) \<Rightarrow> pystr list
    \<Rightarrow> DownloadResult \<times> pystr list list \<Rightarrow> bool \<times> DownloadResult \<times> pystr list list" where
  "try_formats run mk [] (r, calls) = (False, r\<lparr>status := Failed\<rparr>, calls)"
| "try_formats run mk (f # fs) (r, calls) =
     (case run (length calls) (mk f) of
        Completed rc err t \<Rightarrow>
          (if rc = 0 then (True, r\<lparr>download_time := t, status := Success\<rparr>, calls @ [mk f])
           else try_formats run mk fs (r\<lparr>download_time := t\<rparr>, calls @ [mk f]))
      | TimeoutExpired \<Rightarrow>
          try_formats run mk fs (r\<lparr>error_message := timeout_message\<rparr>, calls @ [mk f])
      | Raised msg \<Rightarrow>
          try_formats run mk fs (r\<lparr>error_message := msg\<rparr>, calls @ [mk f]))"

definition handler_download :: "pystr \<Rightarrow> site_info \<Rightarrow> runner \<Rightarrow> pystr \<Rightarrow> DownloadResult
    \<Rightarrow> bool \<times> DownloadResult \<times> pystr list list" where
  "handler_download pre info run u result =
     try_formats run (ytdlp_cmd pre info u) (formats info) (result, [])"

text \<open>
  \<open>SohuHandler.download\<close> first calls \<open>decode_url\<close>, which only logs what it decodes and
  swallows every exception; its value is not used.
\<close>

definition BilibiliHandler_download :: "runner \<Rightarrow> pystr \<Rightarrow> DownloadResult
    \<Rightarrow> bool \<times> DownloadResult \<times> pystr list list" where
  "BilibiliHandler_download = handler_download (str ''bilibili_opt_'') bilibili_info"

definition SohuHandler_download :: "runner \<Rightarrow> pystr \<Rightarrow> DownloadResult
    \<Rightarrow> bool \<times> DownloadResult \<times> pystr list list" where
  "SohuHandler_download = handler_download (str ''sohu_opt_'') sohu_info"

definition Kan360Handler_download :: "runner \<Rightarrow> pystr \<Rightarrow> DownloadResult
    \<Rightarrow> bool \<times> DownloadResult \<times> pystr list list" where
  "Kan360Handler_download = handler_download (str ''360kan_opt_'') kan360_info"

text \<open>\<open>setup_handlers\<close>\<close>

definition handlers :: "(pystr \<times> (runner \<Rightarrow> pystr \<Rightarrow> DownloadResult
    \<Rightarrow> bool \<times> DownloadResult \<times> pystr list list)) list" where
  "handlers = [(str ''bilibili'', BilibiliHandler_download), (str ''sohu'', SohuHandler_download),
     (str ''360kan'', Kan360Handler_download)]"

definition unsupported_message :: pystr where
  "unsupported_message = [0x4E0D, 0x652F, 0x6301, 0x7684, 0x7F51, 0x7AD9, 0x7C7B, 0x578B]"

definition no_handler_message :: "pystr \<Rightarrow> pystr" where
  "no_handler_message s = [0x6CA1, 0x6709, 0x627E, 0x5230, 0x20] @ s @ [0x20, 0x7684, 0x5904, 0x7406, 0x5668]"

text \<open>
  \<open>download_single_video\<close>: the result, and the command lines that were run for the task
  (every network access of the task goes through them).
\<close>

definition download_single_video :: "runner \<Rightarrow> pystr \<Rightarrow> DownloadResult \<times> pystr list list" where
  "download_single_video run u =
     (let s = detect_site u; result = new_result u s in
      if s = str ''unknown''
      then (result\<lparr>status := Failed, error_message := unsupported_message\<rparr>, [])
      else (case map_of handlers s of
              Some handler \<Rightarrow> snd (handler run u result)
            | None \<Rightarrow> (result\<lparr>status := Failed, error_message := no_handler_message s\<rparr>, [])))"


section \<open>The summary report\<close>

record report =
  total_videos :: int
  success_count :: int
  failed_count :: int
  success_rate :: real
  total_time :: real
  results :: "DownloadResult list"

text \<open>
  The rate is computed in floating point: \<open>success_count / len(self.results)\<close> is the true
  division of two integers, which gives the float nearest to the exact quotient, and
  \<open>* 100\<close> is the multiplication of floats. A Python float is an IEEE 754 binary64 number;
  it is modelled by the real number it stands for. Both operations round the exact result
  to the nearest binary64 number, a tie going to the one with an even significand.
  Overflow does not occur here: the quotient is at most 1 and the product at most 100 (see
  \<open>rate_bounds\<close>).

  \<open>floor_log2 x\<close> is the exponent \<open>e\<close> with \<open>2 powi e \<le> x < 2 powi (e + 1)\<close>, for positive \<open>x\<close>.
\<close>

function floor_log2 :: "real \<Rightarrow> int" where
  "floor_log2 x =
     (if x \<le> 0 then 0
      else if 2 \<le> x then floor_log2 (x / 2) + 1
      else if x < 1 then floor_log2 (2 * x) - 1
      else 0)"
  by pat_completeness auto

termination
proof (relation "measure (\<lambda>x. if 1 \<le> x then nat \<lfloor>x\<rfloor> else nat \<lceil>1 / x\<rceil>)")
  show "wf (measure (\<lambda>x::real. if 1 \<le> x then nat \<lfloor>x\<rfloor> else nat \<lceil>1 / x\<rceil>))" by simp
next
  fix x :: real
  assume "\<not> x \<le> 0" "2 \<le> x"
  then have "\<lfloor>x / 2\<rfloor> < \<lfloor>x\<rfloor>" by linarith
  moreover have "0 < \<lfloor>x\<rfloor>" using \<open>2 \<le> x\<close> by linarith
  ultimately show "(x / 2, x) \<in> measure (\<lambda>x. if 1 \<le> x then nat \<lfloor>x\<rfloor> else nat \<lceil>1 / x\<rceil>)"
    using \<open>2 \<le> x\<close> by simp
next
  fix x :: real
  assume a: "\<not> x \<le> 0" "\<not> 2 \<le> x" "x < 1"
  show "(2 * x, x) \<in> measure (\<lambda>x. if 1 \<le> x then nat \<lfloor>x\<rfloor> else nat \<lceil>1 / x\<rceil>)"
  proof (cases "1 \<le> 2 * x")
    case True
    with a have "\<lfloor>2 * x\<rfloor> = 1" by linarith
    moreover from a have "1 < 1 / x" by simp
    then have "2 \<le> \<lceil>1 / x\<rceil>" by linarith
    ultimately show ?thesis using a True by simp
  next
    case False
    with a have "2 < 1 / x" by (simp add: field_simps)
    moreover have "1 / (2 * x) = (1 / x) / 2" by simp
    ultimately have "\<lceil>1 / (2 * x)\<rceil> < \<lceil>1 / x\<rceil>" by linarith
    moreover have "0 < \<lceil>1 / x\<rceil>" using \<open>2 < 1 / x\<close> by linarith
    ultimately show ?thesis using a False by simp
  qed
qed

declare floor_log2.simps [simp del]

text \<open>The integer nearest to \<open>y\<close>, the even one of the two when \<open>y\<close> lies half-way.\<close>

definition round_half_even :: "real \<Rightarrow> int" where
  "round_half_even y =
     (let f = \<lfloor>y\<rfloor>; d = y - of_int f
      in if d < 1 / 2 then f else if 1 / 2 < d then f + 1 else if even f then f else f + 1)"

text \<open>
  The binary64 number nearest to \<open>x\<close>. The significand has 53 bits, so the numbers around
  \<open>x\<close> are the multiples of \<open>2 powi q\<close> with \<open>q = floor_log2 \<bar>x\<bar> - 52\<close>, and of \<open>2 powi - 1074\<close>
  in the subnormal range.
\<close>

definition round_binary64 :: "real \<Rightarrow> real" where
  "round_binary64 x =
     (if x = 0 then 0
      else (let q = max (floor_log2 \<bar>x\<bar> - 52) (- 1074)
            in sgn x * of_int (round_half_even (\<bar>x\<bar> / 2 powi q)) * 2 powi q))"

text \<open>\<open>a / b\<close> on integers (\<open>b\<close> not 0), and \<open>x * y\<close> on floats.\<close>

definition int_truediv :: "int \<Rightarrow> int \<Rightarrow> real" where
  "int_truediv a b = round_binary64 (of_int a / of_int b)"

definition float_mul :: "real \<Rightarrow> real \<Rightarrow> real" where
  "float_mul x y = round_binary64 (x * y)"

text \<open>
  \<open>generate_summary_report\<close> over \<open>self.results\<close>. For the empty batch the rate is the
  integer \<open>0\<close>.
\<close>

definition generate_summary_report :: "DownloadResult list \<Rightarrow> real \<Rightarrow> report" where
  "generate_summary_report rs t =
     (let sc = int (length (filter (\<lambda>r. status r = Success) rs));
          fc = int (length rs) - sc
      in \<lparr> total_videos = int (length rs), success_count = sc, failed_count = fc,
           success_rate = (if rs \<noteq> [] then float_mul (int_truediv sc (int (length rs))) 100 else 0),
           total_time = t, results = rs \<rparr>)"


section \<open>video\_downloader.py: file names\<close>

text \<open>
  The characters of the class \<open>[<>:"/\\|?*]\<close> that \<open>_sanitize_filename\<close> removes:
  \<open><\<close>, \<open>>\<close>, \<open>:\<close>, the double quote, \<open>/\<close>, the backslash, \<open>|\<close>, \<open>?\<close> and \<open>*\<close>.
\<close>

definition illegal_chars :: "nat list" where
  "illegal_chars = [0x3C, 0x3E, 0x3A, 0x22, 0x2F, 0x5C, 0x7C, 0x3F, 0x2A]"

text \<open>
  \<open>_sanitize_filename\<close>. \<open>sanitize_cut\<close> is the value of \<open>filename\<close> when the \<open>return\<close>
  statement is reached, before \<open>strip()\<close>.
\<close>

definition sanitize_cut :: "pystr \<Rightarrow> pystr" where
  "sanitize_cut filename =
     (let filename = filter (\<lambda>c. c \<notin> set illegal_chars) filename
      in if length filename > 100 then take 100 filename else filename)"

definition sanitize_filename :: "pystr \<Rightarrow> pystr" where
  "sanitize_filename filename = strip (sanitize_cut filename)"

text \<open>
  The title of the raw-page extractors \<open>_manual_extract_pinshan\<close> and
  \<open>_manual_extract_baidu\<close>: the default (\<open>pinshan_video\<close>, \<open>baidu_video\<close>) unless the page has
  a \<open>title\<close> element with a non-empty string. The argument is \<open>title_tag.string\<close>, \<open>None\<close>
  when \<open>soup.find('title')\<close> finds nothing or the element has no single string.
\<close>

definition manual_title :: "pystr \<Rightarrow> pystr option \<Rightarrow> pystr" where
  "manual_title dflt title_tag_string =
     (case title_tag_string of
        None \<Rightarrow> dflt
      | Some s \<Rightarrow> if s = [] then dflt else sanitize_filename (strip s))"

text \<open>
  The title of the resolver-based extractors (\<open>_extract_bilibili_video\<close> and the first
  attempt of \<open>_extract_pinshan_video\<close> and \<open>_extract_baidu_video\<close>):
  \<open>info.get('title', default)\<close>, sanitized.
\<close>

definition resolver_title :: "pystr \<Rightarrow> pystr option \<Rightarrow> pystr" where
  "resolver_title dflt info_title =
     sanitize_filename (case info_title of None \<Rightarrow> dflt | Some t \<Rightarrow> t)"

text \<open>
  The dict the extractors return. Only \<open>title\<close>, \<open>url\<close> and \<open>ext\<close> are read afterwards;
  the Sohu and 360kan extractors return no \<open>ext\<close>.
\<close>

record video_info =
  vi_title :: pystr
  vi_url :: pystr
  vi_ext :: "pystr option"

text \<open>The file name \<open>_download_file\<close> builds: \<open>f"{title}.{ext}"\<close> with \<open>ext\<close> defaulting to \<open>mp4\<close>.\<close>

definition download_filename :: "video_info \<Rightarrow> pystr" where
  "download_filename info =
     vi_title info @ str ''.'' @ (case vi_ext info of None \<Rightarrow> str ''mp4'' | Some e \<Rightarrow> e)"


text \<open>The dict the raw-page extractors return, with the extension they inferred.\<close>

definition manual_video_info :: "pystr \<Rightarrow> pystr option \<Rightarrow> pystr \<Rightarrow> pystr \<Rightarrow> video_info" where
  "manual_video_info dflt title_tag_string video_url ext =
     \<lparr> vi_title = manual_title dflt title_tag_string, vi_url = video_url, vi_ext = Some ext \<rparr>"


text \<open>
  \<open>_extract_360kan_video\<close>. The video id is the first value of the \<open>id\<close> parameter of the
  query string, \<open>parse_qs(urlparse(url).query).get('id', [None])[0]\<close>; the title is
  \<open>f'360kan{..}_{video_id}'\<close>, the two characters in the middle being U+89C6 and U+9891.
  The library functions and the two ways of finding the media are external:
  \<open>kan_query_id\<close> is the value of the \<open>id\<close> parameter (\<open>None\<close> also when parsing raises, which
  ends in the same \<open>return None\<close>), \<open>kan_try_ytdlp\<close> is the result of
  \<open>_try_ytdlp_download_sohu\<close>, and \<open>kan_selenium\<close> that of \<open>_selenium_extract_360kan\<close>.
\<close>

record kan_env =
  kan_query_id :: "pystr \<Rightarrow> pystr option"
  kan_try_ytdlp :: "pystr \<Rightarrow> pystr \<Rightarrow> bool"
  kan_selenium :: "pystr \<Rightarrow> pystr \<Rightarrow> pystr option"

definition kan360_title :: "pystr \<Rightarrow> pystr" where
  "kan360_title video_id = str ''360kan'' @ [0x89C6, 0x9891] @ str ''_'' @ video_id"

definition extract_360kan_video :: "kan_env \<Rightarrow> pystr \<Rightarrow> video_info option" where
  "extract_360kan_video ke u =
     (case kan_query_id ke u of
        None \<Rightarrow> None
      | Some video_id \<Rightarrow>
          if video_id = [] then None
          else if kan_try_ytdlp ke u (str ''360kan_'' @ video_id)
          then Some \<lparr> vi_title = kan360_title video_id, vi_url = u, vi_ext = None \<rparr>
          else (case kan_selenium ke u video_id of
                  None \<Rightarrow> None
                | Some video_url \<Rightarrow>
                    if video_url = [] then None
                    else Some \<lparr> vi_title = kan360_title video_id, vi_url = video_url,
                                vi_ext = None \<rparr>))"


section \<open>video\_downloader.py: reading the probe's answer\<close>

text \<open>\<open>s.split(sep)\<close> for a separator of one character.\<close>

fun split_on :: "'a \<Rightarrow> 'a list \<Rightarrow> 'a list list" where
  "split_on sep [] = [[]]"
| "split_on sep (c # cs) =
     (if c = sep then [] # split_on sep cs
      else (case split_on sep cs of [] \<Rightarrow> [[c]] | p # ps \<Rightarrow> (c # p) # ps))"

text \<open>
  \<open>int(s)\<close> on a string (CPython 3.11, Unicode 14), \<open>None\<close> for \<open>ValueError\<close>. Before the
  digits are read, every character with the decimal-digit property is replaced by its
  ASCII digit, and every whitespace character outside ASCII by a space. The decimal
  digits of Unicode come in runs of ten, from the zero of a script to its nine;
  \<open>digit_zeros\<close> lists the zeros.
\<close>

definition digit_zeros :: "nat list" where
  "digit_zeros =
     [0x30, 0x660, 0x6F0, 0x7C0, 0x966, 0x9E6, 0xA66, 0xAE6, 0xB66, 0xBE6, 0xC66, 0xCE6, 0xD66,
      0xDE6, 0xE50, 0xED0, 0xF20, 0x1040, 0x1090, 0x17E0, 0x1810, 0x1946, 0x19D0, 0x1A80, 0x1A90,
      0x1B50, 0x1BB0, 0x1C40, 0x1C50, 0xA620, 0xA8D0, 0xA900, 0xA9D0, 0xA9F0, 0xAA50, 0xABF0,
      0xFF10, 0x104A0, 0x10D30, 0x11066, 0x110F0, 0x11136, 0x111D0, 0x112F0, 0x11450, 0x114D0,
      0x11650, 0x116C0, 0x11730, 0x118E0, 0x11950, 0x11C50, 0x11D50, 0x11DA0, 0x16A60, 0x16AC0,
      0x16B50, 0x1D7CE, 0x1D7D8, 0x1D7E2, 0x1D7EC, 0x1D7F6, 0x1E140, 0x1E2F0, 0x1E950, 0x1FBF0]"

text \<open>The value of a decimal digit, \<open>None\<close> for every other character.\<close>

definition decimal_value :: "nat \<Rightarrow> nat option" where
  "decimal_value c = map_option (\<lambda>z. c - z) (find (\<lambda>z. z \<le> c \<and> c < z + 10) digit_zeros)"

definition is_digit :: "nat \<Rightarrow> bool" where
  "is_digit c \<longleftrightarrow> decimal_value c \<noteq> None"

text \<open>
  The whitespace \<open>int\<close> skips at both ends: tab, line feed, vertical tab, form feed,
  carriage return and space, and the whitespace characters outside ASCII. The separators
  U+001C to U+001F, which \<open>str.strip\<close> removes, are not among them: \<open>int\<close> rejects a string
  that has one.
\<close>

definition int_space :: "nat \<Rightarrow> bool" where
  "int_space c \<longleftrightarrow> (0x09 \<le> c \<and> c \<le> 0x0D) \<or> c = 0x20 \<or> (0x7F \<le> c \<and> isspace c)"

text \<open>
  The digits of the literal: at least one, and single underscores are allowed between two
  digits.
\<close>

fun digits_ok :: "pystr \<Rightarrow> bool" where
  "digits_ok [] = False"
| "digits_ok [c] = is_digit c"
| "digits_ok (c # d # cs) =
     (is_digit c \<and> (if d = 0x5F then cs \<noteq> [] \<and> digits_ok cs else digits_ok (d # cs)))"

definition digits_value :: "pystr \<Rightarrow> int" where
  "digits_value ds = foldl (\<lambda>a d. 10 * a + int d) 0 (List.map_filter decimal_value ds)"

text \<open>\<open>sys.int_max_str_digits\<close>, at its default: a literal with more digits is rejected.\<close>

definition int_max_str_digits :: nat where
  "int_max_str_digits = 4300"

text \<open>
  \<open>int(s)\<close>: whitespace is skipped at both ends, one sign may lead, the rest is the digits.
\<close>

definition py_int :: "pystr \<Rightarrow> int option" where
  "py_int s =
     (case rev (dropWhile int_space (rev (dropWhile int_space s))) of
        [] \<Rightarrow> None
      | c # cs \<Rightarrow>
          (let ds = (if c = 0x2D \<or> c = 0x2B then cs else c # cs)
           in if digits_ok ds \<and> length (filter is_digit ds) \<le> int_max_str_digits
              then Some (if c = 0x2D then - digits_value ds else digits_value ds)
              else None))"

text \<open>
  What \<open>subprocess.run\<close> can do in the post-processing: return a completed process (exit
  status, captured stdout and stderr), raise \<open>TimeoutExpired\<close>, raise \<open>FileNotFoundError\<close>
  (the executable is missing), or raise another exception.
\<close>

datatype run_result = Exited int pystr pystr | TimedOut | FileNotFound | OtherError pystr

text \<open>
  The decision of \<open>_verify_and_fix_audio\<close>, from the answer of \<open>ffprobe\<close> to whether
  \<open>_fix_audio_stream\<close> is called. The fields are \<open>codec_name, sample_rate, channels,
  bit_rate\<close>; the two early returns and the three exception handlers repair nothing.
\<close>

definition needs_fix :: "pystr list \<Rightarrow> bool" where
  "needs_fix audio_info =
     (let sample_rate = audio_info ! 1;
          bit_rate = (if length audio_info > 3 then audio_info ! 3 else str ''0'');
          fix1 = (case py_int bit_rate of Some b \<Rightarrow> b < 64000 | None \<Rightarrow> True)
      in case py_int sample_rate of Some s \<Rightarrow> (if s < 22050 then True else fix1) | None \<Rightarrow> fix1)"

definition probe_flags :: "run_result \<Rightarrow> bool" where
  "probe_flags result =
     (case result of
        Exited rc out err \<Rightarrow>
          if rc \<noteq> 0 \<or> strip out = [] then False
          else (let audio_info = split_on 0x2C (strip out)
                in if length audio_info < 3 then False else needs_fix audio_info)
      | TimedOut \<Rightarrow> False
      | FileNotFound \<Rightarrow> False
      | OtherError e \<Rightarrow> False)"


section \<open>video\_downloader.py: the download directory and the post-processing\<close>

text \<open>
  The download directory: the names in it, in the order \<open>glob("*")\<close> yields them, each a
  regular file with its content or a subdirectory. A path below the directory is
  represented by its name.
\<close>

datatype entry = RegularFile "nat list" | Directory

type_synonym listing = "(pystr \<times> entry) list"

definition path_exists :: "listing \<Rightarrow> pystr \<Rightarrow> bool" where
  "path_exists l n \<longleftrightarrow> map_of l n \<noteq> None"

definition is_file :: "listing \<Rightarrow> pystr \<Rightarrow> bool" where
  "is_file l n \<longleftrightarrow> (case map_of l n of Some (RegularFile c) \<Rightarrow> True | _ \<Rightarrow> False)"

text \<open>\<open>os.remove\<close>: \<open>None\<close> when it raises (no such file, or a directory).\<close>

definition os_remove :: "listing \<Rightarrow> pystr \<Rightarrow> listing option" where
  "os_remove l n = (if is_file l n then Some (AList.delete n l) else None)"

text \<open>\<open>os.rename(src, dst)\<close>: \<open>None\<close> when it raises (no such source).\<close>

definition os_rename :: "listing \<Rightarrow> pystr \<Rightarrow> pystr \<Rightarrow> listing option" where
  "os_rename l src dst =
     (case map_of l src of
        None \<Rightarrow> None
      | Some e \<Rightarrow> Some (AList.update dst e (AList.delete src l)))"

text \<open>
  \<open>Path.suffix\<close> and \<open>Path.stem\<close> of a name: the name is cut at its last dot, unless that
  dot is the first or the last character or there is none.
\<close>

definition last_dot :: "pystr \<Rightarrow> nat option" where
  "last_dot name =
     (let i = length (dropWhile (\<lambda>c. c \<noteq> 0x2E) (rev name))
      in if 1 < i \<and> i < length name then Some (i - 1) else None)"

definition suffix_of :: "pystr \<Rightarrow> pystr" where
  "suffix_of name = (case last_dot name of None \<Rightarrow> [] | Some i \<Rightarrow> drop i name)"

definition stem :: "pystr \<Rightarrow> pystr" where
  "stem name = (case last_dot name of None \<Rightarrow> name | Some i \<Rightarrow> take i name)"

text \<open>
  \<open>str.lower()\<close>, used on suffixes that are then looked up in lists of ASCII suffixes. The
  characters whose lower case is an ASCII letter are \<open>A\<close> to \<open>Z\<close> and the Kelvin sign
  (U+212A); every other character is left as it is, which does not change any of the
  lookups.
\<close>

definition lower :: "pystr \<Rightarrow> pystr" where
  "lower s = map (\<lambda>c. if 0x41 \<le> c \<and> c \<le> 0x5A then c + 0x20 else if c = 0x212A then 0x6B else c) s"

text \<open>\<open>s.split('.f')[0]\<close>: the part of \<open>s\<close> before the first occurrence of the marker.\<close>

fun before_first :: "'a list \<Rightarrow> 'a list \<Rightarrow> 'a list" where
  "before_first needle [] = []"
| "before_first needle (c # cs) =
     (if prefix needle (c # cs) then [] else c # before_first needle cs)"

definition marker :: pystr where
  "marker = str ''.f''"

definition base_of :: "pystr \<Rightarrow> pystr" where
  "base_of name = before_first marker (stem name)"

definition video_exts :: "pystr list" where
  "video_exts = [str ''.mp4'', str ''.mkv'', str ''.webm'', str ''.avi'']"

definition audio_exts :: "pystr list" where
  "audio_exts = [str ''.m4a'', str ''.mp3'', str ''.aac'', str ''.wav'']"

text \<open>
  The first loop of \<open>_post_process_downloaded_files\<close>: the three lists \<open>video_files\<close>,
  \<open>audio_files\<close> and \<open>mp4_files\<close>.
\<close>

fun classify :: "listing \<Rightarrow> pystr list \<times> pystr list \<times> pystr list
    \<Rightarrow> pystr list \<times> pystr list \<times> pystr list" where
  "classify [] acc = acc"
| "classify ((name, e) # rest) (video_files, audio_files, mp4_files) =
     (if e \<noteq> Directory \<and> \<not> suffix (str ''.log'') name
      then (let file_ext = lower (suffix_of name) in
            if file_ext \<in> set video_exts \<and> contains marker name
            then classify rest (video_files @ [name], audio_files, mp4_files)
            else if file_ext \<in> set audio_exts \<and> contains marker name
            then classify rest (video_files, audio_files @ [name], mp4_files)
            else if file_ext = str ''.mp4'' \<and> \<not> contains marker name
            then classify rest (video_files, audio_files, mp4_files @ [name])
            else classify rest (video_files, audio_files, mp4_files))
      else classify rest (video_files, audio_files, mp4_files))"

text \<open>
  The external tools. \<open>ffprobe\<close> answers for a file of the directory. \<open>ffmpeg\<close> answers
  for a command line, and the second component is what it has left at its output path:
  nothing, or a file with that content. Both see the directory as it is when they run.
\<close>

record env =
  ffprobe :: "pystr \<Rightarrow> listing \<Rightarrow> run_result"
  ffmpeg :: "pystr list \<Rightarrow> listing \<Rightarrow> run_result \<times> nat list option"

text \<open>
  The state: the directory, and the \<open>ffmpeg\<close> runs made so far, each with its command
  line and with how it ended.
\<close>

record world =
  listing :: listing
  ffmpeg_calls :: "(pystr list \<times> run_result) list"

definition ffmpeg_path :: pystr where
  "ffmpeg_path = str ''ffmpeg/ffmpeg-8.0-essentials_build/bin/ffmpeg.exe''"

definition merge_cmd :: "pystr \<Rightarrow> pystr \<Rightarrow> pystr \<Rightarrow> pystr list" where
  "merge_cmd video_path audio_path output_path =
     [ffmpeg_path, str ''-i'', video_path, str ''-i'', audio_path, str ''-c:v'', str ''copy'',
      str ''-c:a'', str ''aac'', str ''-b:a'', str ''128k'', str ''-ar'', str ''44100'',
      str ''-ac'', str ''2'', str ''-strict'', str ''experimental'', str ''-y'', output_path]"

definition fix_cmd :: "pystr \<Rightarrow> pystr \<Rightarrow> pystr list" where
  "fix_cmd mp4_file fixed_file =
     [ffmpeg_path, str ''-i'', mp4_file, str ''-c:v'', str ''copy'', str ''-c:a'', str ''aac'',
      str ''-b:a'', str ''128k'', str ''-ar'', str ''44100'', str ''-ac'', str ''2'', str ''-y'',
      fixed_file]"

definition run_ffmpeg :: "env \<Rightarrow> world \<Rightarrow> pystr list \<Rightarrow> pystr \<Rightarrow> run_result \<times> world" where
  "run_ffmpeg ev w cmd output_path =
     (case ffmpeg ev cmd (listing w) of
        (result, written) \<Rightarrow>
          (result,
           w\<lparr>listing := (case written of None \<Rightarrow> listing w
                          | Some c \<Rightarrow> AList.update output_path (RegularFile c) (listing w)),
             ffmpeg_calls := ffmpeg_calls w @ [(cmd, result)]\<rparr>))"

text \<open>
  The two \<open>os.remove\<close> calls of \<open>_merge_video_audio\<close>, in one \<open>try\<close>: when the first raises,
  the second is not reached.
\<close>

definition remove_sources :: "listing \<Rightarrow> pystr \<Rightarrow> pystr \<Rightarrow> listing" where
  "remove_sources l video_path audio_path =
     (case os_remove l video_path of
        None \<Rightarrow> l
      | Some l1 \<Rightarrow> (case os_remove l1 audio_path of None \<Rightarrow> l1 | Some l2 \<Rightarrow> l2))"

text \<open>\<open>_merge_video_audio\<close>: the path of the merged file or \<open>None\<close>, and the new state.\<close>

definition merge_video_audio :: "env \<Rightarrow> world \<Rightarrow> pystr \<Rightarrow> pystr \<Rightarrow> pystr \<Rightarrow> pystr option \<times> world" where
  "merge_video_audio ev w video_path audio_path filename_stem =
     (let output_path = filename_stem @ str ''_merged.mp4'' in
      case run_ffmpeg ev w (merge_cmd video_path audio_path output_path) output_path of
        (Exited rc out err, w1) \<Rightarrow>
          (if rc = 0
           then (Some output_path, w1\<lparr>listing := remove_sources (listing w1) video_path audio_path\<rparr>)
           else (None, w1))
      | (TimedOut, w1) \<Rightarrow> (None, w1)
      | (FileNotFound, w1) \<Rightarrow> (None, w1)
      | (OtherError e, w1) \<Rightarrow> (None, w1))"

text \<open>\<open>_fix_audio_stream\<close>\<close>

definition fix_audio_stream :: "env \<Rightarrow> world \<Rightarrow> pystr \<Rightarrow> world" where
  "fix_audio_stream ev w mp4_file =
     (let fixed_file = stem mp4_file @ str ''_fixed_audio.mp4'' in
      case run_ffmpeg ev w (fix_cmd mp4_file fixed_file) fixed_file of
        (Exited rc out err, w1) \<Rightarrow>
          (if rc = 0
           then (case os_remove (listing w1) mp4_file of
                   None \<Rightarrow> w1
                 | Some l1 \<Rightarrow> (case os_rename l1 fixed_file mp4_file of
                                 None \<Rightarrow> w1\<lparr>listing := l1\<rparr>
                               | Some l2 \<Rightarrow> w1\<lparr>listing := l2\<rparr>))
           else (if path_exists (listing w1) fixed_file
                 then (case os_remove (listing w1) fixed_file of
                         None \<Rightarrow> w1
                       | Some l1 \<Rightarrow> w1\<lparr>listing := l1\<rparr>)
                 else w1))
      | (TimedOut, w1) \<Rightarrow> w1
      | (FileNotFound, w1) \<Rightarrow> w1
      | (OtherError e, w1) \<Rightarrow> w1)"

text \<open>\<open>_verify_and_fix_audio\<close>\<close>

definition verify_and_fix_audio :: "env \<Rightarrow> world \<Rightarrow> pystr \<Rightarrow> world" where
  "verify_and_fix_audio ev w mp4_file =
     (if probe_flags (ffprobe ev mp4_file (listing w)) then fix_audio_stream ev w mp4_file else w)"

text \<open>
  The inner loop of the merge stage: the first audio file whose name has the base of the
  video file; the \<open>break\<close> ends the search there, whether the merge worked or not.
\<close>

fun first_match :: "pystr \<Rightarrow> pystr list \<Rightarrow> pystr option" where
  "first_match video_base [] = None"
| "first_match video_base (audio_file # rest) =
     (if video_base = base_of audio_file then Some audio_file else first_match video_base rest)"

text \<open>The outer loop, over \<open>video_files\<close>; the state carries \<open>mp4_files\<close>.\<close>

fun merge_all :: "env \<Rightarrow> pystr list \<Rightarrow> pystr list \<Rightarrow> world \<times> pystr list \<Rightarrow> world \<times> pystr list" where
  "merge_all ev audio_files [] (w, mp4_files) = (w, mp4_files)"
| "merge_all ev audio_files (video_file # rest) (w, mp4_files) =
     (case first_match (base_of video_file) audio_files of
        None \<Rightarrow> merge_all ev audio_files rest (w, mp4_files)
      | Some audio_file \<Rightarrow>
          (case merge_video_audio ev w video_file audio_file (base_of video_file) of
             (Some merged_file, w1) \<Rightarrow> merge_all ev audio_files rest (w1, mp4_files @ [merged_file])
           | (None, w1) \<Rightarrow> merge_all ev audio_files rest (w1, mp4_files)))"

fun verify_all :: "env \<Rightarrow> pystr list \<Rightarrow> world \<Rightarrow> world" where
  "verify_all ev [] w = w"
| "verify_all ev (mp4_file # rest) w = verify_all ev rest (verify_and_fix_audio ev w mp4_file)"

text \<open>
  \<open>_post_process_downloaded_files\<close>. Every call it makes catches its own exceptions, so
  the outer handler is never entered.
\<close>

definition post_process_downloaded_files :: "env \<Rightarrow> world \<Rightarrow> world" where
  "post_process_downloaded_files ev w =
     (case classify (listing w) ([], [], []) of
        (video_files, audio_files, mp4_files) \<Rightarrow>
          (case (if length video_files \<ge> 1 \<and> length audio_files \<ge> 1
                 then merge_all ev audio_files video_files (w, mp4_files)
                 else (w, mp4_files)) of
             (w1, mp4_files1) \<Rightarrow> verify_all ev mp4_files1 w1))"


section \<open>video\_downloader.py: fetching\<close>

text \<open>
  The directory after a program has left something at a path: nothing (\<open>None\<close>), or a
  regular file with that content, which replaces what was there.
\<close>

definition written :: "listing \<Rightarrow> pystr \<Rightarrow> nat list option \<Rightarrow> listing" where
  "written l output_path wr =
     (case wr of None \<Rightarrow> l | Some c \<Rightarrow> AList.update output_path (RegularFile c) l)"


text \<open>
  Paths, as \<open>pathlib\<close> has them on a POSIX system (\<open>PurePosixPath\<close>, Python 3.11): a root,
  which is empty for a relative path and otherwise \<open>/\<close> or \<open>//\<close>, and the components after
  it. When a string is parsed, empty components and components \<open>.\<close> are dropped; exactly
  two leading slashes make the root \<open>//\<close>, any other number the root \<open>/\<close>.
\<close>

record ppath =
  proot :: pystr
  pparts :: "pystr list"

definition root_of :: "pystr \<Rightarrow> pystr" where
  "root_of s =
     (let n = length (takeWhile (\<lambda>c. c = 0x2F) s)
      in if n = 0 then [] else if n = 2 then str ''//'' else str ''/'')"

definition components :: "pystr \<Rightarrow> pystr list" where
  "components s = filter (\<lambda>x. x \<noteq> [] \<and> x \<noteq> str ''.'') (split_on 0x2F s)"

definition Path :: "pystr \<Rightarrow> ppath" where
  "Path s = \<lparr> proot = root_of s, pparts = components s \<rparr>"

text \<open>\<open>p / s\<close>: a string with a root replaces the path, any other is appended to it.\<close>

definition path_join :: "ppath \<Rightarrow> pystr \<Rightarrow> ppath" where
  "path_join p s = (if root_of s \<noteq> [] then Path s else p\<lparr>pparts := pparts p @ components s\<rparr>)"

text \<open>\<open>p.name\<close>: the last component, empty when there is none.\<close>

definition pname :: "ppath \<Rightarrow> pystr" where
  "pname p = (if pparts p = [] then [] else last (pparts p))"

text \<open>\<open>p.parent\<close>\<close>

definition parent :: "ppath \<Rightarrow> ppath" where
  "parent p = p\<lparr>pparts := butlast (pparts p)\<rparr>"

text \<open>\<open>sep.join(xs)\<close>\<close>

fun join_with :: "pystr \<Rightarrow> pystr list \<Rightarrow> pystr" where
  "join_with sep [] = []"
| "join_with sep [x] = x"
| "join_with sep (x # y # ys) = x @ sep @ join_with sep (y # ys)"

text \<open>\<open>str(p)\<close>: the root and the components joined by \<open>/\<close>, and \<open>.\<close> for the empty path.\<close>

definition path_str :: "ppath \<Rightarrow> pystr" where
  "path_str p =
     (let s = proot p @ join_with (str ''/'') (pparts p) in if s = [] then str ''.'' else s)"

text \<open>
  \<open>p.with_suffix('')\<close>: the name is replaced by its stem; \<open>None\<close> for the \<open>ValueError\<close> that a
  path with an empty name gives.
\<close>

definition with_suffix_empty :: "ppath \<Rightarrow> ppath option" where
  "with_suffix_empty p =
     (if pname p = [] then None
      else Some (p\<lparr>pparts := butlast (pparts p) @ [stem (pname p)]\<rparr>))"

text \<open>\<open>self.download_dir\<close>, which is \<open>Path(download_dir)\<close>\<close>

definition download_path :: ppath where
  "download_path = Path download_dir"

text \<open>
  The entry of the download directory that a path denotes, when it is a child of the
  directory: the path \<open>downloads/n\<close> with \<open>n\<close> other than \<open>..\<close>.
\<close>

definition entry_of :: "ppath \<Rightarrow> pystr option" where
  "entry_of p =
     (case pparts p of
        [d, n] \<Rightarrow> if proot p = [] \<and> d = download_dir \<and> n \<noteq> str ''..'' then Some n else None
      | _ \<Rightarrow> None)"

text \<open>\<open>str(n)\<close> for a non-negative integer: its decimal digits.\<close>

fun dec :: "nat \<Rightarrow> pystr" where
  "dec n = (if n < 10 then [0x30 + n] else dec (n div 10) @ [0x30 + n mod 10])"

declare dec.simps [simp del]

text \<open>
  The network, the file system and the libraries around them.

  \<open>Path.exists\<close> asks the operating system. It raises when the system refuses the path
  with an error other than "not found" (a name that is too long, a directory that may
  not be searched): \<open>stat_raises\<close>. For a child of the download directory the answer is
  otherwise read from the directory; for any other path (one that leads into a
  subdirectory or out of the directory) it is \<open>stat_elsewhere\<close>.

  The direct attempt of \<open>_download_file\<close> is \<open>requests.get\<close>, the check of the status, the
  reading of the \<open>Content-Length\<close> header, the creation of the file and the streaming
  loop. It runs to its end, or something in it raises; \<open>http_get\<close> tells which, for the
  address and the path of the file, and how the directory is left.

  \<open>YoutubeDL.download\<close> returns or raises, and leaves the directory in a new state.
  \<open>Path.glob\<close> finds something, finds nothing, or raises (a pattern it does not accept).
  \<open>urlparse\<close> gives the scheme and the host. The extractors of the five platforms are taken
  as they answer: a media reference, nothing, or an exception, and the directory as they
  leave it.
\<close>

datatype http_result = Streamed listing | Broken listing

datatype ytdlp_result = YtdlpDone listing | YtdlpRaised listing

datatype glob_result = GlobFound | GlobEmpty | GlobRaised

datatype extract_result = Extracted video_info | NoInfo | ExtractRaised

record net =
  stat_raises :: "ppath \<Rightarrow> listing \<Rightarrow> bool"
  stat_elsewhere :: "ppath \<Rightarrow> listing \<Rightarrow> bool"
  http_get :: "pystr \<Rightarrow> ppath \<Rightarrow> listing \<Rightarrow> http_result"
  ytdlp :: "pystr \<Rightarrow> pystr \<Rightarrow> listing \<Rightarrow> ytdlp_result"
  glob :: "ppath \<Rightarrow> pystr \<Rightarrow> listing \<Rightarrow> glob_result"
  urlparse :: "pystr \<Rightarrow> pystr \<times> pystr"
  extractors :: "extractor \<Rightarrow> pystr \<Rightarrow> listing \<Rightarrow> extract_result \<times> listing"

text \<open>\<open>p.exists()\<close>: \<open>None\<close> when it raises.\<close>

definition exists_py :: "net \<Rightarrow> listing \<Rightarrow> ppath \<Rightarrow> bool option" where
  "exists_py nt l p =
     (if stat_raises nt p l then None
      else Some (case entry_of p of
                   Some n \<Rightarrow> path_exists l n
                 | None \<Rightarrow> stat_elsewhere nt p l))"

text \<open>
  The loop of \<open>_download_file\<close> that looks for a name not yet taken:
  \<open>while filepath.exists(): filepath = download_dir / f"{name_part}_{counter}{ext_part}"\<close>,
  the counter going up by one, \<open>name_part\<close> and \<open>ext_part\<close> being the stem and the suffix
  of the name of the first path. The loop ends with a free path or with the exception of
  \<open>exists\<close>. The first argument bounds the number of tests.
\<close>

definition numbered_name :: "ppath \<Rightarrow> nat \<Rightarrow> pystr" where
  "numbered_name original counter =
     stem (pname original) @ str ''_'' @ dec counter @ suffix_of (pname original)"

definition numbered :: "ppath \<Rightarrow> nat \<Rightarrow> ppath" where
  "numbered original counter = path_join download_path (numbered_name original counter)"

datatype search = Free ppath | StatError

fun free_path :: "nat \<Rightarrow> net \<Rightarrow> listing \<Rightarrow> ppath \<Rightarrow> ppath \<Rightarrow> nat \<Rightarrow> search option" where
  "free_path 0 nt l original filepath counter = None"
| "free_path (Suc fuel) nt l original filepath counter =
     (case exists_py nt l filepath of
        None \<Rightarrow> Some StatError
      | Some True \<Rightarrow> free_path fuel nt l original (numbered original counter) (counter + 1)
      | Some False \<Rightarrow> Some (Free filepath))"

definition unique_path :: "net \<Rightarrow> listing \<Rightarrow> ppath \<Rightarrow> search option" where
  "unique_path nt l original = free_path (length l + 2) nt l original original 1"

text \<open>The requests that leave the fetch stage: a direct GET, a download by the resolver.\<close>

datatype event = HttpGet pystr | YtdlpDownload pystr pystr

text \<open>
  \<open>str(filepath.with_suffix('')) + '.%(ext)s'\<close>, \<open>None\<close> when \<open>with_suffix\<close> raises.
\<close>

definition outtmpl_for :: "ppath \<Rightarrow> pystr option" where
  "outtmpl_for filepath =
     (case with_suffix_empty filepath of
        None \<Rightarrow> None
      | Some base \<Rightarrow> Some (path_str base @ str ''.%(ext)s''))"

text \<open>
  \<open>_download_with_ytdlp\<close>: the result, the new state and the requests made. Every
  exception ends in \<open>return False\<close>; when the output template cannot be built, the
  resolver is not reached.
\<close>

definition download_with_ytdlp :: "net \<Rightarrow> env \<Rightarrow> world \<Rightarrow> pystr \<Rightarrow> ppath
    \<Rightarrow> bool \<times> world \<times> event list" where
  "download_with_ytdlp nt ev w u filepath =
     (case outtmpl_for filepath of
        None \<Rightarrow> (False, w, [])
      | Some tmpl \<Rightarrow>
          (case ytdlp nt u tmpl (listing w) of
             YtdlpRaised l1 \<Rightarrow> (False, w\<lparr>listing := l1\<rparr>, [YtdlpDownload u tmpl])
           | YtdlpDone l1 \<Rightarrow>
               (case glob nt (parent filepath) (stem (pname filepath) @ str ''.*'') l1 of
                  GlobFound \<Rightarrow>
                    (True, post_process_downloaded_files ev (w\<lparr>listing := l1\<rparr>),
                     [YtdlpDownload u tmpl])
                | GlobEmpty \<Rightarrow> (False, w\<lparr>listing := l1\<rparr>, [YtdlpDownload u tmpl])
                | GlobRaised \<Rightarrow> (False, w\<lparr>listing := l1\<rparr>, [YtdlpDownload u tmpl]))))"

text \<open>
  \<open>_download_file\<close>. The numbering loop ends (see \<open>unique_path_total\<close>), so the first
  branch is never taken. When \<open>exists\<close> raises, the outer handler returns \<open>False\<close> before
  any request is made. When the direct attempt raises, the inner handler calls
  \<open>_download_with_ytdlp(video_url, filepath)\<close>.
\<close>

definition download_file :: "net \<Rightarrow> env \<Rightarrow> world \<Rightarrow> video_info \<Rightarrow> bool \<times> world \<times> event list" where
  "download_file nt ev w info =
     (case unique_path nt (listing w) (path_join download_path (download_filename info)) of
        None \<Rightarrow> (False, w, [])
      | Some StatError \<Rightarrow> (False, w, [])
      | Some (Free filepath) \<Rightarrow>
          (case http_get nt (vi_url info) filepath (listing w) of
             Streamed l1 \<Rightarrow> (True, w\<lparr>listing := l1\<rparr>, [HttpGet (vi_url info)])
           | Broken l1 \<Rightarrow>
               (case download_with_ytdlp nt ev (w\<lparr>listing := l1\<rparr>) (vi_url info) filepath of
                  (ok, w1, evs) \<Rightarrow> (ok, w1, HttpGet (vi_url info) # evs))))"

text \<open>
  \<open>_download_video_with_ytdlp\<close>, the first attempt of \<open>download_video\<close>: the resolver is run
  on the page URL, and the attempt counts when a new file (other than a log) is there.
\<close>

definition plain_files :: "listing \<Rightarrow> pystr list" where
  "plain_files l = map fst (filter (\<lambda>(n, e). e \<noteq> Directory \<and> \<not> suffix (str ''.log'') n) l)"

definition download_video_with_ytdlp :: "net \<Rightarrow> env \<Rightarrow> world \<Rightarrow> pystr \<Rightarrow> bool \<times> world \<times> event list" where
  "download_video_with_ytdlp nt ev w u =
     (let tmpl = download_dir @ str ''/%(title)s.%(ext)s'' in
      case ytdlp nt u tmpl (listing w) of
        YtdlpRaised l1 \<Rightarrow> (False, w\<lparr>listing := l1\<rparr>, [YtdlpDownload u tmpl])
      | YtdlpDone l1 \<Rightarrow>
          (if set (plain_files l1) - set (plain_files (listing w)) \<noteq> {}
           then (True, post_process_downloaded_files ev (w\<lparr>listing := l1\<rparr>), [YtdlpDownload u tmpl])
           else (False, w\<lparr>listing := l1\<rparr>, [YtdlpDownload u tmpl])))"

text \<open>
  \<open>download_video\<close>: every exception ends in \<open>return False\<close>. The requests of the extractors
  are not part of the log.
\<close>

definition download_video :: "net \<Rightarrow> env \<Rightarrow> world \<Rightarrow> pystr \<Rightarrow> bool \<times> world \<times> event list" where
  "download_video nt ev w u =
     (if fst (urlparse nt u) = [] \<or> snd (urlparse nt u) = [] then (False, w, [])
      else (case download_video_with_ytdlp nt ev w u of
              (True, w1, evs) \<Rightarrow> (True, w1, evs)
            | (False, w1, evs) \<Rightarrow>
                (case select_handler (lower (snd (urlparse nt u))) of
                   None \<Rightarrow> (False, w1, evs)
                 | Some handler \<Rightarrow>
                     (case extractors nt handler u (listing w1) of
                        (Extracted info, l2) \<Rightarrow>
                          (case download_file nt ev (w1\<lparr>listing := l2\<rparr>) info of
                             (ok, w3, evs3) \<Rightarrow> (ok, w3, evs @ evs3))
                      | (NoInfo, l2) \<Rightarrow> (False, w1\<lparr>listing := l2\<rparr>, evs)
                      | (ExtractRaised, l2) \<Rightarrow> (False, w1\<lparr>listing := l2\<rparr>, evs)))))"


section \<open>Notions used to state the properties\<close>

text \<open>The resolver process returned with exit status 0.\<close>

fun exit0 :: "proc \<Rightarrow> bool" where
  "exit0 (Completed rc err t) = (rc = 0)"
| "exit0 TimeoutExpired = False"
| "exit0 (Raised msg) = False"

text \<open>
  The error message after one more attempt: a completed process leaves it as it was, the
  two exception branches overwrite it.
\<close>

fun raised_message :: "pystr \<Rightarrow> proc \<Rightarrow> pystr" where
  "raised_message m (Completed rc err t) = m"
| "raised_message m TimeoutExpired = timeout_message"
| "raised_message m (Raised msg) = msg"

text \<open>The result object after an attempt that did not exit with status 0.\<close>

fun after_failure :: "DownloadResult \<Rightarrow> proc \<Rightarrow> DownloadResult" where
  "after_failure r (Completed rc err t) = r\<lparr>download_time := t\<rparr>"
| "after_failure r TimeoutExpired = r\<lparr>error_message := timeout_message\<rparr>"
| "after_failure r (Raised msg) = r\<lparr>error_message := msg\<rparr>"

text \<open>
  The answers of the probe for which \<open>_verify_and_fix_audio\<close> logs that the file has no
  audio stream (or a damaged one): a non-zero exit status or an empty answer.
\<close>

definition no_audio_stream :: "run_result \<Rightarrow> bool" where
  "no_audio_stream result \<longleftrightarrow>
     (case result of Exited rc out err \<Rightarrow> rc \<noteq> 0 \<or> strip out = [] | _ \<Rightarrow> False)"

text \<open>
  What the specification asks of the final error message: the concatenation of the failure
  reason of every attempt (the diagnostic text of a process that completed, the text of an
  exception).
\<close>

definition spec_error_chain :: "proc list \<Rightarrow> pystr" where
  "spec_error_chain ps = concat (map (\<lambda>p. case p of Completed rc err t \<Rightarrow> err
      | TimeoutExpired \<Rightarrow> timeout_message | Raised msg \<Rightarrow> msg) ps)"


text \<open>
  The output path of \<open>_merge_video_audio\<close> for a logical identity.
\<close>

definition merged_path :: "pystr \<Rightarrow> pystr" where
  "merged_path b = b @ str ''_merged.mp4''"

text \<open>
  The transcoder returned with exit status 0.
\<close>

definition merge_ok :: "run_result \<Rightarrow> bool" where
  "merge_ok r \<longleftrightarrow> (case r of Exited rc out err \<Rightarrow> rc = 0 | _ \<Rightarrow> False)"







text \<open>The number a decimal string stands for.\<close>

definition undec :: "pystr \<Rightarrow> nat" where
  "undec ds = foldl (\<lambda>a d. 10 * a + (d - 0x30)) 0 ds"


section \<open>Inputs used in the examples\<close>

definition bilibili_url :: pystr where
  "bilibili_url = str ''https://www.bilibili.com/video/BV1fp4y1m7Fz''"

definition foreign_url :: pystr where
  "foreign_url = str ''https://example.org/watch?ref=bilibili.com''"

definition sohu_url :: pystr where
  "sohu_url = str ''https://tv.sohu.com/v/dXMvMzM4NDQ5OTcwLzE1ODk3MzM2OC5zaHRtbA==.html''"


definition run_ok :: runner where
  "run_ok i cmd = Completed 0 [] 1"

definition run_raises :: runner where
  "run_raises i cmd = (if i = 0 then Raised (str ''a'') else Raised (str ''b''))"

definition run_second_ok :: runner where
  "run_second_ok i cmd = (if i = 0 then TimeoutExpired else Completed 0 [] 2)"


text \<open>
  A 360kan page address whose \<open>id\<close> parameter is \<open>../../x:y\<close>, as \<open>parse_qs\<close> reads it; the
  resolver fails on the page and the browser finds a media address.
\<close>

definition kan_url :: pystr where
  "kan_url = str ''https://tv.360kan.com/player?id=../../x:y''"

definition kan_pages :: kan_env where
  "kan_pages = \<lparr> kan_query_id = (\<lambda>u. if u = kan_url then Some (str ''../../x:y'') else None),
     kan_try_ytdlp = (\<lambda>u prefix. False),
     kan_selenium = (\<lambda>u video_id. Some (str ''https://cdn.example.net/v/1.mp4'')) \<rparr>"

definition silent_env :: env where
  "silent_env = \<lparr> ffprobe = (\<lambda>f l. Exited 0 [] []), ffmpeg = (\<lambda>cmd l. (Exited 0 [] [], Some [])) \<rparr>"

definition healthy_env :: env where
  "healthy_env = \<lparr> ffprobe = (\<lambda>f l. Exited 0 (str ''aac,44100,2,128000'' @ [0x0A]) []),
     ffmpeg = (\<lambda>cmd l. (Exited 0 [] [], Some [])) \<rparr>"

definition one_file :: world where
  "one_file = \<lparr> listing = [(str ''clip.mp4'', RegularFile [1, 2, 3])], ffmpeg_calls = [] \<rparr>"






definition media_url :: pystr where
  "media_url = str ''https://cdn.example.net/v/1.mp4''"

definition clip_info :: video_info where
  "clip_info = \<lparr> vi_title = str ''clip'', vi_url = media_url, vi_ext = Some (str ''mp4'') \<rparr>"

definition broken_net :: net where
  "broken_net = \<lparr> stat_raises = (\<lambda>p l. False), stat_elsewhere = (\<lambda>p l. False),
     http_get = (\<lambda>u p l. Broken l), ytdlp = (\<lambda>u tmpl l. YtdlpRaised l),
     glob = (\<lambda>p pattern l. GlobEmpty),
     urlparse = (\<lambda>u. (str ''https'', str ''www.bilibili.com'')),
     extractors = (\<lambda>h u l. (Extracted clip_info, l)) \<rparr>"

text \<open>The same, with a file system that refuses every path.\<close>

definition refusing_net :: net where
  "refusing_net = broken_net\<lparr>stat_raises := (\<lambda>p l. True)\<rparr>"

text \<open>The same, with a direct attempt that works.\<close>

definition streaming_net :: net where
  "streaming_net = broken_net\<lparr>http_get := (\<lambda>u p l. Streamed l)\<rparr>"

text \<open>A media reference whose title is \<open>/\<close> and whose extension is empty.\<close>

definition unnamed_info :: video_info where
  "unnamed_info = \<lparr> vi_title = str ''/'', vi_url = media_url, vi_ext = Some [] \<rparr>"

definition empty_dir :: world where
  "empty_dir = \<lparr> listing = [], ffmpeg_calls = [] \<rparr>"


section \<open>Properties of the report\<close>

lemma success_count_le_total:
  "success_count (generate_summary_report rs t) \<le> total_videos (generate_summary_report rs t)"
  by (simp add: generate_summary_report_def Let_def)






















section \<open>The handler chain\<close>

lemma try_formats_stop:
  "exit0 (run (length cs) (mk f)) \<Longrightarrow>
   \<exists>t. try_formats run mk (f # fs) (r, cs) = (True, r\<lparr>download_time := t, status := Success\<rparr>, cs @ [mk f])"
  by (cases "run (length cs) (mk f)") auto

lemma try_formats_advance:
  "\<not> exit0 (run (length cs) (mk f)) \<Longrightarrow>
   try_formats run mk (f # fs) (r, cs) =
     try_formats run mk fs (after_failure r (run (length cs) (mk f)), cs @ [mk f])"
  by (cases "run (length cs) (mk f)") auto

lemma after_failure_fields:
  "error_message (after_failure r p) = raised_message (error_message r) p"
  "files (after_failure r p) = files r" "url (after_failure r p) = url r"
  "site (after_failure r p) = site r"
  by (cases p; simp)+

lemma raised_message_exit0: "exit0 p \<Longrightarrow> raised_message m p = m"
  by (cases p) simp_all

lemma upt_shift: "map g [0..<Suc n] = g 0 # map (\<lambda>j. g (Suc j)) [0..<n]"
  by (simp only: upt_conv_Cons [of 0 "Suc n"] map_Suc_upt [symmetric]) (simp add: comp_def)


lemma try_formats_spec:
  "try_formats run mk fs (r, cs) = (ok, r', cs') \<Longrightarrow>
   \<exists>n\<le>length fs. cs' = cs @ map mk (take n fs)
     \<and> (\<forall>j<n. exit0 (run (length cs + j) (mk (fs ! j))) \<longrightarrow> Suc j = n)
     \<and> (ok \<longleftrightarrow> (0 < n \<and> exit0 (run (length cs + (n - 1)) (mk (fs ! (n - 1))))))
     \<and> (\<not> ok \<longrightarrow> n = length fs)
     \<and> status r' = (if ok then Success else Failed)
     \<and> error_message r' = foldl raised_message (error_message r)
          (map (\<lambda>j. run (length cs + j) (mk (fs ! j))) [0..<n])
     \<and> files r' = files r \<and> url r' = url r \<and> site r' = site r"
proof (induction fs arbitrary: r cs)
  case Nil
  from Nil have "\<not> ok" "r' = r\<lparr>status := Failed\<rparr>" "cs' = cs"
    by simp_all
  then show ?case
    by simp
next
  case (Cons f fs)
  let ?p = "run (length cs) (mk f)"
  show ?case
  proof (cases "exit0 ?p")
    case True
    from try_formats_stop [where run=run and cs=cs and mk=mk and f=f and fs=fs and r=r] True Cons.prems
    obtain t where "ok" "r' = r\<lparr>download_time := t, status := Success\<rparr>" "cs' = cs @ [mk f]"
      by (auto simp del: try_formats.simps)
    with True show ?thesis
      by (intro exI [of _ "Suc 0"]) (simp add: raised_message_exit0 del: try_formats.simps)
  next
    case False
    from try_formats_advance [where run=run and cs=cs and mk=mk and f=f and fs=fs and r=r] False Cons.prems
    have rec: "try_formats run mk fs (after_failure r ?p, cs @ [mk f]) = (ok, r', cs')"
      by (simp del: try_formats.simps)
    from Cons.IH [OF rec] obtain n where n1: "n \<le> length fs"
      and n2: "cs' = (cs @ [mk f]) @ map mk (take n fs)"
      and n3: "\<forall>j<n. exit0 (run (length (cs @ [mk f]) + j) (mk (fs ! j))) \<longrightarrow> Suc j = n"
      and n4: "ok \<longleftrightarrow> (0 < n \<and> exit0 (run (length (cs @ [mk f]) + (n - 1)) (mk (fs ! (n - 1)))))"
      and n5: "\<not> ok \<longrightarrow> n = length fs"
      and n6: "status r' = (if ok then Success else Failed)"
      and n7: "error_message r' = foldl raised_message (error_message (after_failure r ?p))
          (map (\<lambda>j. run (length (cs @ [mk f]) + j) (mk (fs ! j))) [0..<n])"
      and n8: "files r' = files (after_failure r ?p)" "url r' = url (after_failure r ?p)"
        "site r' = site (after_failure r ?p)"
      by (elim exE conjE) (rule that; assumption)
    have a: "\<forall>j<Suc n. exit0 (run (length cs + j) (mk ((f # fs) ! j))) \<longrightarrow> Suc j = Suc n"
    proof (intro allI impI)
      fix j assume j: "j < Suc n" and e: "exit0 (run (length cs + j) (mk ((f # fs) ! j)))"
      show "Suc j = Suc n"
      proof (cases j)
        case 0
        with e False show ?thesis by simp
      next
        case (Suc k)
        with j e have "k < n" "exit0 (run (length (cs @ [mk f]) + k) (mk (fs ! k)))" by simp_all
        with n3 have "Suc k = n" by blast
        with Suc show ?thesis by simp
      qed
    qed
    have b: "ok \<longleftrightarrow> (0 < Suc n \<and> exit0 (run (length cs + (Suc n - 1)) (mk ((f # fs) ! (Suc n - 1)))))"
    proof (cases n)
      case 0
      with n4 False show ?thesis by simp
    next
      case (Suc k)
      with n4 show ?thesis by simp
    qed
    have c: "error_message r' = foldl raised_message (error_message r)
          (map (\<lambda>j. run (length cs + j) (mk ((f # fs) ! j))) [0..<Suc n])"
      unfolding upt_shift using n7 by (simp add: after_failure_fields)
    have d: "cs' = cs @ map mk (take (Suc n) (f # fs))" using n2 by simp
    have e: "\<not> ok \<longrightarrow> Suc n = length (f # fs)" "Suc n \<le> length (f # fs)"
      using n1 n5 by simp_all
    have g: "files r' = files r" "url r' = url r" "site r' = site r"
      using n8 by (simp_all add: after_failure_fields)
    show ?thesis
      by (rule exI [of _ "Suc n"]) (insert a b c d e g n6, intro conjI; assumption)
  qed
qed


lemma handler_download_spec:
  assumes "handler_download pre info run u r0 = (ok, r, calls)"
  shows "\<exists>n\<le>length (formats info).
       calls = map (ytdlp_cmd pre info u) (take n (formats info))
     \<and> (\<forall>j<n. exit0 (run j (calls ! j)) \<longrightarrow> Suc j = n)
     \<and> (ok \<longleftrightarrow> (0 < n \<and> exit0 (run (n - 1) (calls ! (n - 1)))))
     \<and> (\<not> ok \<longrightarrow> n = length (formats info))
     \<and> status r = (if ok then Success else Failed)
     \<and> error_message r = foldl raised_message (error_message r0) (map (\<lambda>j. run j (calls ! j)) [0..<n])
     \<and> files r = files r0 \<and> url r = url r0 \<and> site r = site r0"
proof -
  let ?mk = "ytdlp_cmd pre info u" and ?fs = "formats info"
  from assms have "try_formats run ?mk ?fs (r0, []) = (ok, r, calls)"
    by (simp add: handler_download_def)
  from try_formats_spec [OF this] obtain n where n1: "n \<le> length ?fs"
      and n2: "calls = [] @ map ?mk (take n ?fs)"
      and n3: "\<forall>j<n. exit0 (run (length ([]::pystr list list) + j) (?mk (?fs ! j))) \<longrightarrow> Suc j = n"
      and n4: "ok \<longleftrightarrow> (0 < n \<and> exit0 (run (length ([]::pystr list list) + (n - 1)) (?mk (?fs ! (n - 1)))))"
      and n5: "\<not> ok \<longrightarrow> n = length ?fs"
      and n6: "status r = (if ok then Success else Failed)"
      and n7: "error_message r = foldl raised_message (error_message r0)
          (map (\<lambda>j. run (length ([]::pystr list list) + j) (?mk (?fs ! j))) [0..<n])"
      and n8: "files r = files r0" "url r = url r0" "site r = site r0"
    by (elim exE conjE) (rule that; assumption)
  have nth: "calls ! j = ?mk (?fs ! j)" if "j < n" for j
    using that n1 n2 by simp
  have a: "\<forall>j<n. exit0 (run j (calls ! j)) \<longrightarrow> Suc j = n"
    using n3 nth by simp
  have b: "ok \<longleftrightarrow> (0 < n \<and> exit0 (run (n - 1) (calls ! (n - 1))))"
    using n4 nth [of "n - 1"] by auto
  have m: "map (\<lambda>j. run j (calls ! j)) [0..<n] = map (\<lambda>j. run (length ([]::pystr list list) + j) (?mk (?fs ! j))) [0..<n]"
    by (rule map_cong) (simp_all add: nth)
  have c: "error_message r = foldl raised_message (error_message r0) (map (\<lambda>j. run j (calls ! j)) [0..<n])"
    by (subst m) (rule n7)
  have d: "calls = map ?mk (take n ?fs)" using n2 by simp
  show ?thesis
    by (rule exI [of _ n]) (insert n1 d a b n5 n6 c n8, intro conjI; assumption)
qed

text \<open>
  C2, as the code has it. A handler runs the resolver on the formats of its table entry in
  their order (the commands run are those of a prefix of the list); an attempt that exits
  with status 0 is the last one and makes the task succeed; the task fails only after every
  format was tried and none exited with 0. The final error message is not a concatenation:
  it is the text of the last attempt that raised (the timeout text or the exception's), and
  the message the result had before when no attempt raised; a non-zero exit adds nothing.
\<close>

theorem chain_order_and_last_error:
  assumes "handler_download pre info run u r0 = (ok, r, calls)"
  shows "\<exists>n\<le>length (formats info).
       calls = map (ytdlp_cmd pre info u) (take n (formats info))
     \<and> (\<forall>j<n. exit0 (run j (calls ! j)) \<longrightarrow> Suc j = n)
     \<and> (ok \<longleftrightarrow> (0 < n \<and> exit0 (run (n - 1) (calls ! (n - 1)))))
     \<and> (\<not> ok \<longrightarrow> n = length (formats info))
     \<and> status r = (if ok then Success else Failed)
     \<and> error_message r = foldl raised_message (error_message r0) (map (\<lambda>j. run j (calls ! j)) [0..<n])"
proof -
  from handler_download_spec [OF assms] obtain n where "n \<le> length (formats info)"
    "calls = map (ytdlp_cmd pre info u) (take n (formats info))"
    "\<forall>j<n. exit0 (run j (calls ! j)) \<longrightarrow> Suc j = n"
    "ok \<longleftrightarrow> (0 < n \<and> exit0 (run (n - 1) (calls ! (n - 1))))"
    "\<not> ok \<longrightarrow> n = length (formats info)"
    "status r = (if ok then Success else Failed)"
    "error_message r = foldl raised_message (error_message r0) (map (\<lambda>j. run j (calls ! j)) [0..<n])"
    by (elim exE conjE) (rule that; assumption)
  then show ?thesis
    by - (rule exI [of _ n], intro conjI; assumption)
qed

lemma handlers_cases:
  "map_of handlers s = Some h \<Longrightarrow>
   h = handler_download (str ''bilibili_opt_'') bilibili_info
   \<or> h = handler_download (str ''sohu_opt_'') sohu_info
   \<or> h = handler_download (str ''360kan_opt_'') kan360_info"
  by (auto simp: handlers_def BilibiliHandler_download_def SohuHandler_download_def
      Kan360Handler_download_def split: if_splits)

lemma handler_result:
  assumes "handler_download pre info run u r0 = (ok, r, calls)"
  shows "files r = files r0 \<and> site r = site r0 \<and> url r = url r0
    \<and> (status r = Success \<longleftrightarrow> calls \<noteq> [] \<and> exit0 (run (length calls - 1) (last calls)))
    \<and> (status r = Success \<or> status r = Failed)
    \<and> (formats info \<noteq> [] \<longrightarrow> calls \<noteq> [])"
proof -
  from handler_download_spec [OF assms] obtain n where n1: "n \<le> length (formats info)"
    and n2: "calls = map (ytdlp_cmd pre info u) (take n (formats info))"
    and n4: "ok \<longleftrightarrow> (0 < n \<and> exit0 (run (n - 1) (calls ! (n - 1))))"
    and n5: "\<not> ok \<longrightarrow> n = length (formats info)"
    and n6: "status r = (if ok then Success else Failed)"
    and n8: "files r = files r0" "url r = url r0" "site r = site r0"
    by (elim exE conjE) (rule that; assumption)
  have len: "length calls = n" using n1 n2 by simp
  have ne: "calls \<noteq> [] \<longleftrightarrow> 0 < n" using len by auto
  have "last calls = calls ! (n - 1)" if "0 < n"
    using that len ne by (simp add: last_conv_nth)
  with n4 ne len have "ok \<longleftrightarrow> calls \<noteq> [] \<and> exit0 (run (length calls - 1) (last calls))"
    by auto
  moreover have "formats info \<noteq> [] \<longrightarrow> calls \<noteq> []"
    using n4 n5 ne by (cases ok) auto
  ultimately show ?thesis using n6 n8 by simp
qed

text \<open>
  C1, as the code has it. A result has status \<open>Success\<close> exactly when the last resolver
  process run for the task exited with status 0; no output file is ever recorded, the file
  list of every result of the pipeline is empty.
\<close>

theorem success_iff_exit_zero:
  assumes "download_single_video run u = (r, calls)"
  shows "files r = []
    \<and> (status r = Success \<longleftrightarrow> calls \<noteq> [] \<and> exit0 (run (length calls - 1) (last calls)))"
proof (cases "detect_site u = str ''unknown''")
  case True
  with assms show ?thesis
    by (auto simp: download_single_video_def Let_def new_result_def)
next
  case False
  show ?thesis
  proof (cases "map_of handlers (detect_site u)")
    case None
    with False assms show ?thesis
      by (auto simp: download_single_video_def Let_def new_result_def)
  next
    case (Some h)
    with False assms have h: "snd (h run u (new_result u (detect_site u))) = (r, calls)"
      by (simp add: download_single_video_def Let_def)
    from handlers_cases [OF Some] obtain pre info where "h = handler_download pre info"
      by blast
    with h have "handler_download pre info run u (new_result u (detect_site u))
        = (fst (h run u (new_result u (detect_site u))), r, calls)"
      by (metis prod.collapse)
    from handler_result [OF this] show ?thesis
      by (simp add: new_result_def)
  qed
qed


lemma detect_site_bilibili_url: "detect_site bilibili_url = str ''bilibili''"
  by (simp add: detect_site_def supported_sites_def bilibili_info_def bilibili_url_def str_def)

lemma detect_site_foreign_url: "detect_site foreign_url = str ''bilibili''"
  by (simp add: detect_site_def supported_sites_def bilibili_info_def foreign_url_def str_def)

lemma map_of_handlers_bilibili: "map_of handlers (str ''bilibili'') = Some BilibiliHandler_download"
  by (simp add: handlers_def)

lemma bilibili_not_unknown: "str ''bilibili'' \<noteq> str ''unknown''"
  by (simp add: str_def)

lemma download_single_video_bilibili:
  "detect_site u = str ''bilibili'' \<Longrightarrow>
   download_single_video run u = snd (BilibiliHandler_download run u (new_result u (str ''bilibili'')))"
  by (simp add: download_single_video_def Let_def map_of_handlers_bilibili bilibili_not_unknown)

lemma bilibili_run_ok:
  "BilibiliHandler_download run_ok u r =
     (True, r\<lparr>download_time := 1, status := Success\<rparr>,
      [ytdlp_cmd (str ''bilibili_opt_'') bilibili_info u (str ''100024+30280'')])"
  by (simp add: BilibiliHandler_download_def handler_download_def bilibili_info_def run_ok_def)

lemma single_run_ok:
  "download_single_video run_ok bilibili_url =
     (new_result bilibili_url (str ''bilibili'')\<lparr>download_time := 1, status := Success\<rparr>,
      [ytdlp_cmd (str ''bilibili_opt_'') bilibili_info bilibili_url (str ''100024+30280'')])"
  by (simp add: download_single_video_bilibili detect_site_bilibili_url bilibili_run_ok)

text \<open>
  C1, counterexample: with a resolver that exits with 0 the result of a Bilibili task is
  \<open>Success\<close> and records no file.
\<close>

theorem success_without_recorded_file:
  "status (fst (download_single_video run_ok bilibili_url)) = Success
   \<and> files (fst (download_single_video run_ok bilibili_url)) = []"
  by (simp add: single_run_ok new_result_def)

theorem success_iff_exit_zero_witness:
  "download_single_video run_ok bilibili_url =
     (new_result bilibili_url (str ''bilibili'')\<lparr>download_time := 1, status := Success\<rparr>,
      [ytdlp_cmd (str ''bilibili_opt_'') bilibili_info bilibili_url (str ''100024+30280'')])
   \<and> files (new_result bilibili_url (str ''bilibili'')\<lparr>download_time := 1, status := Success\<rparr>) = []
   \<and> exit0 (run_ok 0 (ytdlp_cmd (str ''bilibili_opt_'') bilibili_info bilibili_url (str ''100024+30280'')))"
  using success_iff_exit_zero [OF single_run_ok] single_run_ok
  by (simp add: new_result_def)

lemma sohu_run_raises:
  "SohuHandler_download run_raises u r =
     (False, r\<lparr>error_message := str ''b'', status := Failed\<rparr>,
      [ytdlp_cmd (str ''sohu_opt_'') sohu_info u (str ''best''),
       ytdlp_cmd (str ''sohu_opt_'') sohu_info u (str ''worst'')])"
  by (simp add: SohuHandler_download_def handler_download_def sohu_info_def run_raises_def)

text \<open>
  C2, counterexample: both attempts of the Sohu handler raise, with the texts \<open>a\<close> and
  \<open>b\<close>; the final error message is \<open>b\<close>, not the concatenation \<open>ab\<close>.
\<close>

theorem error_message_not_concatenated:
  "run_raises 0 (ytdlp_cmd (str ''sohu_opt_'') sohu_info sohu_url (str ''best'')) = Raised (str ''a'')
   \<and> run_raises 1 (ytdlp_cmd (str ''sohu_opt_'') sohu_info sohu_url (str ''worst'')) = Raised (str ''b'')
   \<and> spec_error_chain [Raised (str ''a''), Raised (str ''b'')] = str ''ab''
   \<and> error_message (fst (snd (SohuHandler_download run_raises sohu_url (new_result sohu_url (str ''sohu'')))))
       = str ''b''
   \<and> error_message (fst (snd (SohuHandler_download run_raises sohu_url (new_result sohu_url (str ''sohu'')))))
       \<noteq> spec_error_chain [Raised (str ''a''), Raised (str ''b'')]"
  by (simp add: sohu_run_raises run_raises_def spec_error_chain_def str_def)

lemma sohu_run_second_ok:
  "handler_download (str ''sohu_opt_'') sohu_info run_second_ok u r =
     (True, r\<lparr>error_message := timeout_message, download_time := 2, status := Success\<rparr>,
      [ytdlp_cmd (str ''sohu_opt_'') sohu_info u (str ''best''),
       ytdlp_cmd (str ''sohu_opt_'') sohu_info u (str ''worst'')])"
  by (simp add: handler_download_def sohu_info_def run_second_ok_def)

theorem chain_order_and_last_error_witness:
  "handler_download (str ''sohu_opt_'') sohu_info run_second_ok sohu_url (new_result sohu_url (str ''sohu'')) =
     (True, new_result sohu_url (str ''sohu'')
        \<lparr>error_message := timeout_message, download_time := 2, status := Success\<rparr>,
      [ytdlp_cmd (str ''sohu_opt_'') sohu_info sohu_url (str ''best''),
       ytdlp_cmd (str ''sohu_opt_'') sohu_info sohu_url (str ''worst'')])
   \<and> (\<exists>n\<le>length (formats sohu_info).
       [ytdlp_cmd (str ''sohu_opt_'') sohu_info sohu_url (str ''best''),
        ytdlp_cmd (str ''sohu_opt_'') sohu_info sohu_url (str ''worst'')]
         = map (ytdlp_cmd (str ''sohu_opt_'') sohu_info sohu_url) (take n (formats sohu_info))
       \<and> n = 2)"
proof -
  let ?calls = "[ytdlp_cmd (str ''sohu_opt_'') sohu_info sohu_url (str ''best''),
        ytdlp_cmd (str ''sohu_opt_'') sohu_info sohu_url (str ''worst'')]"
  note h = sohu_run_second_ok [of sohu_url "new_result sohu_url (str ''sohu'')"]
  from chain_order_and_last_error [OF h]
  obtain n where n: "n \<le> length (formats sohu_info)"
    "?calls = map (ytdlp_cmd (str ''sohu_opt_'') sohu_info sohu_url) (take n (formats sohu_info))"
    by (elim exE conjE) (rule that; assumption)
  from n(2) have "length ?calls = length (take n (formats sohu_info))"
    by (simp only: length_map)
  with n(1) have n2: "n = 2" by simp
  show ?thesis
    by (rule conjI [OF h], rule exI [of _ n], insert n n2, intro conjI; assumption)
qed

lemma config_detect_site_foreign_url: "config_detect_site foreign_url = str ''bilibili''"
  by (simp add: config_detect_site_def SITE_CONFIGS_def foreign_url_def str_def)

lemma select_handler_example_org: "select_handler (str ''example.org'') = None"
  by (simp add: select_handler_def vd_supported_sites_def str_def)

text \<open>
  C3. The classification is to match the host of the URL. \<open>detect_site\<close> (of the optimized
  downloader and of the configuration module) matches the whole URL: a URL of the host
  \<open>example.org\<close> that carries \<open>bilibili.com\<close> in its query is classified as Bilibili, while
  the handler selection of \<open>VideoDownloader.download_video\<close>, which matches the host, finds
  no platform for that host.
\<close>

theorem detect_site_matches_outside_host:
  "detect_site foreign_url = str ''bilibili''
   \<and> config_detect_site foreign_url = str ''bilibili''
   \<and> select_handler (str ''example.org'') = None"
  by (intro conjI detect_site_foreign_url config_detect_site_foreign_url
      select_handler_example_org)

text \<open>
  C4. A URL whose host matches no platform is to fail without a network call. For the URL of
  the host \<open>example.org\<close> above the task is classified as Bilibili and the resolver is run,
  whatever it answers; when it exits with 0 the task even succeeds.
\<close>

theorem foreign_host_reaches_resolver:
  "site (fst (download_single_video run foreign_url)) = str ''bilibili''
   \<and> snd (download_single_video run foreign_url) \<noteq> []
   \<and> status (fst (download_single_video run_ok foreign_url)) = Success"
proof -
  let ?h = "handler_download (str ''bilibili_opt_'') bilibili_info run foreign_url
     (new_result foreign_url (str ''bilibili''))"
  have "?h = (fst ?h, fst (snd ?h), snd (snd ?h))" by simp
  from handler_result [OF this]
  have "site (fst (snd ?h)) = str ''bilibili''" "snd (snd ?h) \<noteq> []"
    by (simp_all add: new_result_def bilibili_info_def)
  moreover have "download_single_video run foreign_url = snd ?h"
    by (simp add: download_single_video_bilibili detect_site_foreign_url BilibiliHandler_download_def)
  moreover have "status (fst (download_single_video run_ok foreign_url)) = Success"
    by (simp add: download_single_video_bilibili detect_site_foreign_url bilibili_run_ok)
  ultimately show ?thesis by simp
qed

lemma unknown_site_fails_without_call:
  "detect_site u = str ''unknown'' \<Longrightarrow>
   download_single_video run u =
     (new_result u (str ''unknown'')\<lparr>status := Failed, error_message := unsupported_message\<rparr>, [])"
  by (simp add: download_single_video_def Let_def)

lemma detect_site_in_unknown:
  "\<forall>(s, info)\<in>set tbl. \<not> contains (domain info) u \<Longrightarrow> detect_site_in tbl u = str ''unknown''"
  by (induction tbl) auto

lemma detect_site_in_first_match:
  "detect_site_in tbl u = s \<Longrightarrow> s \<noteq> str ''unknown'' \<Longrightarrow>
   \<exists>pre info post. tbl = pre @ (s, info) # post \<and> contains (domain info) u
     \<and> (\<forall>(s', info')\<in>set pre. \<not> contains (domain info') u)"
proof (induction tbl)
  case Nil
  then show ?case by simp
next
  case (Cons e tbl)
  obtain s0 info0 where e: "e = (s0, info0)" by (cases e)
  show ?case
  proof (cases "contains (domain info0) u")
    case True
    with Cons.prems e have "s = s0" by simp
    with True e show ?thesis by (intro exI [of _ "[]"]) auto
  next
    case False
    with Cons.prems e have "detect_site_in tbl u = s" by simp
    from Cons.IH [OF this Cons.prems(2)] obtain pre info post where
      "tbl = pre @ (s, info) # post" "contains (domain info) u"
      "\<forall>(s', info')\<in>set pre. \<not> contains (domain info') u" by blast
    with False e show ?thesis
      by (intro exI [of _ "e # pre"] exI [of _ info] exI [of _ post]) auto
  qed
qed


section \<open>File names and the audio check\<close>

lemma set_strip: "set (strip s) \<subseteq> set s"
proof -
  have "set (strip s) \<subseteq> set (lstrip s)"
    unfolding strip_def rstrip_def using set_dropWhileD [of _ isspace "rev (lstrip s)"] by auto
  moreover have "set (lstrip s) \<subseteq> set s"
    unfolding lstrip_def using set_dropWhileD [of _ isspace s] by auto
  ultimately show ?thesis by blast
qed

lemma length_strip: "length (strip s) \<le> length s"
proof -
  have "length (strip s) \<le> length (lstrip s)"
    unfolding strip_def rstrip_def using length_dropWhile_le [of isspace "rev (lstrip s)"] by simp
  also have "\<dots> \<le> length s"
    unfolding lstrip_def by (rule length_dropWhile_le)
  finally show ?thesis .
qed

lemma length_sanitize_cut: "length (sanitize_cut s) \<le> 100"
  by (simp add: sanitize_cut_def Let_def)

lemma set_sanitize_cut: "set (sanitize_cut s) \<inter> set illegal_chars = {}"
  by (auto simp: sanitize_cut_def Let_def dest: in_set_takeD)

text \<open>
  The sanitizer itself does what is claimed of it: for every input its result has none of
  the nine characters, and the string it strips has at most 100 characters (so has its
  result). The raw-page extractors pass the page title through it.
\<close>

lemma sanitizer_output:
  "set (sanitize_filename s) \<inter> set illegal_chars = {}"
  "length (sanitize_cut s) \<le> 100"
  "sanitize_filename s = strip (sanitize_cut s)"
  "length (sanitize_filename s) \<le> 100"
proof -
  have "set (sanitize_filename s) \<subseteq> set (sanitize_cut s)"
    unfolding sanitize_filename_def by (rule set_strip)
  with set_sanitize_cut [of s] show "set (sanitize_filename s) \<inter> set illegal_chars = {}"
    by blast
  show "length (sanitize_filename s) \<le> 100"
    unfolding sanitize_filename_def
    using length_strip [of "sanitize_cut s"] length_sanitize_cut [of s] by linarith
qed (simp_all add: length_sanitize_cut sanitize_filename_def)

lemma manual_titles_sanitized:
  "t \<noteq> [] \<Longrightarrow>
   download_filename (manual_video_info dflt (Some t) u e) = sanitize_filename (strip t) @ str ''.'' @ e"
  "vi_title (manual_video_info dflt None u e) = dflt"
  by (simp_all add: download_filename_def manual_video_info_def manual_title_def)

lemma sanitize_example: "sanitize_filename (str '' a/b:c*d?  '') = str ''abcd''"
  by (simp add: sanitize_filename_def sanitize_cut_def illegal_chars_def strip_def lstrip_def
      rstrip_def isspace_def str_def Let_def)

text \<open>
  C10 does not hold of \<open>_extract_360kan_video\<close>, which is one of the manual extractors of
  \<open>download_video\<close>: its title is built from the \<open>id\<close> parameter of the page address and
  does not go through the sanitizer. For the address \<open>kan_url\<close> the title, and the file
  name \<open>_download_file\<close> makes of it, keep the slashes and the colon of the parameter, so
  that the path of the file has three components below the download directory; the
  sanitizer would have changed the title.
\<close>

theorem kan360_title_not_sanitized:
  "extract_360kan_video kan_pages kan_url
     = Some \<lparr> vi_title = kan360_title (str ''../../x:y''),
              vi_url = str ''https://cdn.example.net/v/1.mp4'', vi_ext = None \<rparr>
   \<and> download_filename \<lparr> vi_title = kan360_title (str ''../../x:y''),
              vi_url = str ''https://cdn.example.net/v/1.mp4'', vi_ext = None \<rparr>
       = str ''360kan'' @ [0x89C6, 0x9891] @ str ''_../../x:y.mp4''
   \<and> set (str ''360kan'' @ [0x89C6, 0x9891] @ str ''_../../x:y.mp4'') \<inter> set illegal_chars = {0x2F, 0x3A}
   \<and> pparts (path_join download_path (str ''360kan'' @ [0x89C6, 0x9891] @ str ''_../../x:y.mp4''))
       = [str ''downloads'', str ''360kan'' @ [0x89C6, 0x9891] @ str ''_..'', str ''..'', str ''x:y.mp4'']
   \<and> sanitize_filename (kan360_title (str ''../../x:y''))
       = str ''360kan'' @ [0x89C6, 0x9891] @ str ''_....xy''
   \<and> sanitize_filename (kan360_title (str ''../../x:y'')) \<noteq> kan360_title (str ''../../x:y'')"
proof -
  have p: "pparts (path_join download_path (str ''360kan'' @ [0x89C6, 0x9891] @ str ''_../../x:y.mp4''))
       = [str ''downloads'', str ''360kan'' @ [0x89C6, 0x9891] @ str ''_..'', str ''..'', str ''x:y.mp4'']"
    by (simp add: path_join_def Path_def download_path_def root_of_def components_def
        download_dir_def str_def)
  have a: "extract_360kan_video kan_pages kan_url
     = Some \<lparr> vi_title = kan360_title (str ''../../x:y''),
              vi_url = str ''https://cdn.example.net/v/1.mp4'', vi_ext = None \<rparr>"
    by (simp add: extract_360kan_video_def kan_pages_def) (simp add: str_def)
  have b: "download_filename \<lparr> vi_title = kan360_title (str ''../../x:y''),
              vi_url = str ''https://cdn.example.net/v/1.mp4'', vi_ext = None \<rparr>
       = str ''360kan'' @ [0x89C6, 0x9891] @ str ''_../../x:y.mp4''"
    by (simp add: download_filename_def kan360_title_def str_def)
  have c: "set (str ''360kan'' @ [0x89C6, 0x9891] @ str ''_../../x:y.mp4'') \<inter> set illegal_chars = {0x2F, 0x3A}"
    by (auto simp: illegal_chars_def str_def)
  have d: "sanitize_filename (kan360_title (str ''../../x:y''))
       = str ''360kan'' @ [0x89C6, 0x9891] @ str ''_....xy''"
    by (simp add: sanitize_filename_def sanitize_cut_def illegal_chars_def strip_def lstrip_def
        rstrip_def isspace_def kan360_title_def str_def Let_def)
  have e: "sanitize_filename (kan360_title (str ''../../x:y'')) \<noteq> kan360_title (str ''../../x:y'')"
    unfolding d by (simp add: kan360_title_def str_def)
  from a b c p d e show ?thesis by (intro conjI)
qed

lemma decimal_value_low:
  "c < 0x660 \<Longrightarrow> decimal_value c = (if 0x30 \<le> c \<and> c \<le> 0x39 then Some (c - 0x30) else None)"
  by (auto simp: decimal_value_def digit_zeros_def)

lemmas py_int_simps = py_int_def digits_value_def is_digit_def int_space_def isspace_def
  int_max_str_digits_def List.map_filter_simps decimal_value_low str_def Let_def

text \<open>
  C6, as the code has it. A file is flagged for repair exactly when the probe exits with
  status 0, its answer is not empty and has at least three fields, and the bit rate (taken
  as 0 when the fourth field is missing) is unreadable or below 64000, or the sample rate
  is readable and below 22050. A file without audio stream is not flagged.
\<close>

theorem probe_flags_iff:
  "probe_flags p \<longleftrightarrow>
     (\<exists>out err. p = Exited 0 out err \<and> strip out \<noteq> []
        \<and> 3 \<le> length (split_on 0x2C (strip out))
        \<and> (let fields = split_on 0x2C (strip out);
                bit_rate = (if 3 < length fields then fields ! 3 else str ''0'')
            in py_int bit_rate = None
               \<or> (\<exists>b. py_int bit_rate = Some b \<and> b < 64000)
               \<or> (\<exists>s. py_int (fields ! 1) = Some s \<and> s < 22050)))"
proof (cases p)
  case (Exited rc out err)
  show ?thesis
  proof (cases "rc \<noteq> 0 \<or> strip out = [] \<or> length (split_on 0x2C (strip out)) < 3")
    case True
    with Exited show ?thesis by (auto simp: probe_flags_def Let_def)
  next
    case False
    with Exited have "probe_flags p = needs_fix (split_on 0x2C (strip out))"
      by (simp add: probe_flags_def Let_def)
    with False Exited show ?thesis
      by (auto simp: needs_fix_def Let_def split: option.splits)
  qed
qed (simp_all add: probe_flags_def)

lemma probe_flags_healthy_example:
  "probe_flags (Exited 0 (str ''aac,44100,2,128000'' @ [0x0A]) []) = False"
  by (simp add: probe_flags_def needs_fix_def py_int_simps strip_def lstrip_def rstrip_def)

lemma probe_flags_low_bitrate_example:
  "probe_flags (Exited 0 (str ''aac,44100,2,32000'' @ [0x0A]) []) = True"
  by (simp add: probe_flags_def needs_fix_def py_int_simps strip_def lstrip_def rstrip_def)

theorem probe_flags_iff_witness:
  "probe_flags (Exited 0 (str ''aac,44100,2,32000'' @ [0x0A]) [])
   \<and> (\<exists>out err. Exited 0 (str ''aac,44100,2,32000'' @ [0x0A]) [] = Exited 0 out err \<and> strip out \<noteq> []
        \<and> 3 \<le> length (split_on 0x2C (strip out)))"
  using probe_flags_iff [of "Exited 0 (str ''aac,44100,2,32000'' @ [0x0A]) []"]
    probe_flags_low_bitrate_example
  by (simp add: Let_def)

text \<open>
  C6, counterexample: the probe answers nothing for a file without audio stream; the file
  is not flagged, and the verification leaves the directory as it is and runs no
  transcoder.
\<close>

theorem no_audio_stream_not_flagged:
  "no_audio_stream (Exited 0 [] []) \<and> \<not> probe_flags (Exited 0 [] [])
   \<and> verify_and_fix_audio silent_env one_file (str ''clip.mp4'') = one_file
   \<and> ffmpeg_calls (verify_and_fix_audio silent_env one_file (str ''clip.mp4'')) = []"
  by (simp add: no_audio_stream_def probe_flags_def verify_and_fix_audio_def silent_env_def
      one_file_def strip_def rstrip_def lstrip_def)

text \<open>
  C8. When the probe reports a bit rate of at least 64000 and a sample rate of at least
  22050, \<open>_verify_and_fix_audio\<close> changes nothing: the directory with the content of every
  file is as before, and no transcoder was run.
\<close>

theorem healthy_file_untouched:
  assumes "ffprobe ev mp4_file (listing w) = Exited 0 out err"
    and "4 \<le> length (split_on 0x2C (strip out))"
    and "py_int (split_on 0x2C (strip out) ! 3) = Some b" and "64000 \<le> b"
    and "py_int (split_on 0x2C (strip out) ! 1) = Some s" and "22050 \<le> s"
  shows "verify_and_fix_audio ev w mp4_file = w"
proof -
  have "\<not> probe_flags (Exited 0 out err)"
    using assms(2-6) by (auto simp: probe_flags_def needs_fix_def Let_def)
  with assms(1) show ?thesis by (simp add: verify_and_fix_audio_def)
qed

theorem healthy_file_untouched_witness:
  "ffprobe healthy_env (str ''clip.mp4'') (listing one_file) = Exited 0 (str ''aac,44100,2,128000'' @ [0x0A]) []
   \<and> py_int (split_on 0x2C (strip (str ''aac,44100,2,128000'' @ [0x0A])) ! 3) = Some 128000
   \<and> py_int (split_on 0x2C (strip (str ''aac,44100,2,128000'' @ [0x0A])) ! 1) = Some 44100
   \<and> verify_and_fix_audio healthy_env one_file (str ''clip.mp4'') = one_file"
proof -
  have a: "ffprobe healthy_env (str ''clip.mp4'') (listing one_file) = Exited 0 (str ''aac,44100,2,128000'' @ [0x0A]) []"
    by (simp add: healthy_env_def)
  have b: "4 \<le> length (split_on 0x2C (strip (str ''aac,44100,2,128000'' @ [0x0A])))"
    by (simp add: py_int_simps strip_def lstrip_def rstrip_def)
  have c: "py_int (split_on 0x2C (strip (str ''aac,44100,2,128000'' @ [0x0A])) ! 3) = Some 128000"
    by (simp add: py_int_simps strip_def lstrip_def rstrip_def)
  have d: "py_int (split_on 0x2C (strip (str ''aac,44100,2,128000'' @ [0x0A])) ! 1) = Some 44100"
    by (simp add: py_int_simps strip_def lstrip_def rstrip_def)
  from healthy_file_untouched [OF a b c _ d] a c d show ?thesis by simp
qed


section \<open>The post-processing of downloaded files\<close>

text \<open>
  \<open>contains\<close> is the contiguous-sublist relation of the library.
\<close>

lemma contains_sublist: "contains needle hay \<longleftrightarrow> sublist needle hay"
  by (induction hay) (simp_all add: sublist_Cons_right)

lemma marker_eq: "marker = [0x2E, 0x66]"
  by (simp add: marker_def str_def)

lemma split_marker:
  "marker = xs1 @ xs2 \<Longrightarrow> xs1 = [] \<and> xs2 = marker \<or> xs1 = [0x2E] \<and> xs2 = [0x66] \<or> xs1 = marker \<and> xs2 = []"
  by (auto simp: marker_eq append_eq_Cons_conv Cons_eq_append_conv)

lemma contains_marker_append:
  assumes "contains marker (ys @ zs)"
  shows "contains marker ys \<or> contains marker zs \<or> (suffix [0x2E] ys \<and> prefix [0x66] zs)"
proof -
  from assms have "sublist marker (ys @ zs)" by (simp add: contains_sublist)
  then consider "sublist marker ys" | "sublist marker zs"
    | xs1 xs2 where "marker = xs1 @ xs2" "suffix xs1 ys" "prefix xs2 zs"
    unfolding sublist_append by blast
  then show ?thesis
  proof cases
    case 3
    from split_marker [OF 3(1)] 3(2,3) show ?thesis
      by (auto simp: contains_sublist)
  qed (simp_all add: contains_sublist)
qed

lemma prefix_before_first: "prefix (before_first needle s) s"
  by (induction s) auto

lemma before_first_free: "needle \<noteq> [] \<Longrightarrow> \<not> contains needle (before_first needle s)"
proof (induction s)
  case Nil
  then show ?case by simp
next
  case (Cons c cs)
  show ?case
  proof (cases "prefix needle (c # cs)")
    case True
    with Cons.prems show ?thesis by simp
  next
    case False
    have "\<not> prefix needle (c # before_first needle cs)"
    proof
      assume "prefix needle (c # before_first needle cs)"
      moreover have "prefix (c # before_first needle cs) (c # cs)"
        by (simp add: prefix_before_first)
      ultimately have "prefix needle (c # cs)" by (rule prefix_order.trans)
      with False show False by simp
    qed
    with False Cons show ?thesis by simp
  qed
qed

lemma base_of_unmarked: "\<not> contains marker (base_of n)"
  unfolding base_of_def by (rule before_first_free) (simp add: marker_eq)

lemma merged_name_unmarked: "\<not> contains marker (base_of n @ str ''_merged.mp4'')"
proof
  assume "contains marker (base_of n @ str ''_merged.mp4'')"
  from contains_marker_append [OF this] base_of_unmarked [of n] show False
    by (auto simp: str_def marker_eq)
qed






lemma os_remove_Some: "os_remove l n = Some l' \<Longrightarrow> map_of l' = (map_of l)(n := None)"
  by (auto simp: os_remove_def delete_conv' split: if_splits)



lemma remove_sources_shrinks:
  "map_of (remove_sources l v a) n = map_of l n \<or> map_of (remove_sources l v a) n = None"
  by (auto simp: remove_sources_def dest!: os_remove_Some split: option.splits if_splits)


lemma run_ffmpeg_eq:
  "run_ffmpeg ev w cmd out =
     (fst (ffmpeg ev cmd (listing w)),
      w\<lparr>listing := written (listing w) out (snd (ffmpeg ev cmd (listing w))),
        ffmpeg_calls := ffmpeg_calls w @ [(cmd, fst (ffmpeg ev cmd (listing w)))]\<rparr>)"
  by (simp add: run_ffmpeg_def written_def split: prod.split)

lemma written_other: "n \<noteq> out \<Longrightarrow> map_of (written l out wr) n = map_of l n"
  by (simp add: written_def update_conv' split: option.split)



lemma merge_video_audio_eq:
  "merge_video_audio ev w v a b =
     (let cmd = merge_cmd v a (merged_path b);
          l1 = written (listing w) (merged_path b) (snd (ffmpeg ev cmd (listing w)));
          ok = merge_ok (fst (ffmpeg ev cmd (listing w)))
      in (if ok then Some (merged_path b) else None,
          \<lparr>listing = (if ok then remove_sources l1 v a else l1),
           ffmpeg_calls = ffmpeg_calls w @ [(cmd, fst (ffmpeg ev cmd (listing w)))]\<rparr>))"
  by (cases "fst (ffmpeg ev (merge_cmd v a (merged_path b)) (listing w))")
     (simp_all add: merge_video_audio_def run_ffmpeg_eq merge_ok_def merged_path_def Let_def)


lemma merge_step_shrinks:
  assumes "merge_video_audio ev w v a b = (r, w')" "n \<noteq> merged_path b"
  shows "map_of (listing w') n = map_of (listing w) n \<or> map_of (listing w') n = None"
proof -
  let ?l1 = "written (listing w) (merged_path b)
      (snd (ffmpeg ev (merge_cmd v a (merged_path b)) (listing w)))"
  have "map_of ?l1 n = map_of (listing w) n" using assms(2) by (rule written_other)
  moreover have "map_of (remove_sources ?l1 v a) n = map_of ?l1 n \<or> map_of (remove_sources ?l1 v a) n = None"
    by (rule remove_sources_shrinks)
  ultimately show ?thesis using assms(1)
    by (auto simp: merge_video_audio_eq Let_def split: if_splits)
qed






















lemma merged_path_unmarked: "\<not> contains marker (merged_path (base_of v))"
  unfolding merged_path_def by (rule merged_name_unmarked)

lemma merge_all_step:
  "merge_all ev afs (v # vs) (w, ms) =
     (case first_match (base_of v) afs of
        None \<Rightarrow> merge_all ev afs vs (w, ms)
      | Some a \<Rightarrow>
          merge_all ev afs vs
            (snd (merge_video_audio ev w v a (base_of v)),
             ms @ (case fst (merge_video_audio ev w v a (base_of v)) of None \<Rightarrow> [] | Some m \<Rightarrow> [m])))"
  by (auto split: option.splits prod.splits)



lemma merge_all_marked_absent:
  assumes "contains marker n" "map_of (listing w) n = None"
  shows "map_of (listing (fst (merge_all ev afs vs (w, ms)))) n = None"
  using assms(2)
proof (induction vs arbitrary: w ms)
  case Nil
  then show ?case by simp
next
  case (Cons v vs)
  show ?case
  proof (cases "first_match (base_of v) afs")
    case None
    have "map_of (listing (fst (merge_all ev afs vs (w, ms)))) n = None"
      using Cons.prems by (rule Cons.IH)
    with None show ?thesis by (simp add: merge_all_step del: merge_all.simps)
  next
    case (Some a)
    let ?m = "merge_video_audio ev w v a (base_of v)"
    let ?ms = "ms @ (case fst ?m of None \<Rightarrow> [] | Some m \<Rightarrow> [m])"
    have ne: "n \<noteq> merged_path (base_of v)"
      using assms(1) merged_path_unmarked [of v] by auto
    have "?m = (fst ?m, snd ?m)" by simp
    from merge_step_shrinks [OF this ne] Cons.prems
    have "map_of (listing (snd ?m)) n = None" by presburger
    then have "map_of (listing (fst (merge_all ev afs vs (snd ?m, ?ms)))) n = None"
      by (rule Cons.IH)
    with Some show ?thesis by (simp add: merge_all_step del: merge_all.simps)
  qed
qed



lemma merge_all_mp4s_mono: "set ms \<subseteq> set (snd (merge_all ev afs vs (w, ms)))"
proof (induction vs arbitrary: w ms)
  case Nil
  then show ?case by simp
next
  case (Cons v vs)
  show ?case
  proof (cases "first_match (base_of v) afs")
    case None
    with Cons.IH [of ms w] show ?thesis by (simp add: merge_all_step del: merge_all.simps)
  next
    case (Some a)
    let ?m = "merge_video_audio ev w v a (base_of v)"
    from Cons.IH [of "ms @ (case fst ?m of None \<Rightarrow> [] | Some m \<Rightarrow> [m])" "snd ?m"] Some
    show ?thesis by (simp add: merge_all_step del: merge_all.simps)
  qed
qed




























section \<open>The fetcher\<close>

lemma undec_snoc: "undec (ds @ [d]) = 10 * undec ds + (d - 0x30)"
  by (simp add: undec_def)

lemma undec_dec: "undec (dec n) = n"
proof (induction n rule: dec.induct)
  case (1 n)
  show ?case
  proof (cases "n < 10")
    case True
    then show ?thesis by (subst dec.simps) (simp add: undec_def)
  next
    case False
    with 1 have "undec (dec (n div 10)) = n div 10" by simp
    with False show ?thesis by (subst dec.simps) (simp add: undec_snoc)
  qed
qed

lemma dec_inj: "dec j = dec k \<Longrightarrow> j = k"
  by (metis undec_dec)

lemma dec_digits: "c \<in> set (dec n) \<Longrightarrow> 0x30 \<le> c \<and> c \<le> 0x39"
proof (induction n rule: dec.induct)
  case (1 n)
  show ?case
  proof (cases "n < 10")
    case True
    with 1(2) show ?thesis by (subst (asm) dec.simps) simp
  next
    case False
    from 1(2) have "c \<in> set (dec (n div 10)) \<or> c = 0x30 + n mod 10"
      by (subst (asm) dec.simps) (use False in auto)
    with 1(1) [OF False] show ?thesis by auto
  qed
qed

lemma dec_nonempty: "dec n \<noteq> []"
  by (subst dec.simps) simp

lemma numbered_name_inj: "numbered_name original j = numbered_name original k \<Longrightarrow> j = k"
  by (simp add: numbered_name_def dec_inj)

lemma split_on_free: "sep \<notin> set s \<Longrightarrow> split_on sep s = [s]"
  by (induction s) auto

lemma split_on_parts: "x \<in> set (split_on sep s) \<Longrightarrow> sep \<notin> set x"
proof (induction s arbitrary: x)
  case Nil
  then show ?case by simp
next
  case (Cons c s)
  then show ?case by (cases "split_on sep s") (auto split: if_splits)
qed

lemma pname_no_slash:
  assumes "\<forall>x\<in>set (pparts p). 0x2F \<notin> set x"
  shows "0x2F \<notin> set (pname p)"
  using assms by (auto simp: pname_def)

lemma components_no_slash: "x \<in> set (components s) \<Longrightarrow> 0x2F \<notin> set x"
  by (auto simp: components_def dest: split_on_parts)

lemma download_path_eq: "download_path = \<lparr>proot = [], pparts = [download_dir]\<rparr>"
  by (simp add: download_path_def Path_def root_of_def components_def download_dir_def str_def)

lemma joined_no_slash: "x \<in> set (pparts (path_join download_path s)) \<Longrightarrow> 0x2F \<notin> set x"
  by (auto simp: path_join_def Path_def download_path_eq download_dir_def str_def
      dest: components_no_slash split: if_splits)

lemma stem_set: "set (stem n) \<subseteq> set n"
  by (auto simp: stem_def split: option.splits dest: in_set_takeD)

lemma suffix_of_set: "set (suffix_of n) \<subseteq> set n"
  by (auto simp: suffix_of_def split: option.splits dest: in_set_dropD)

lemma numbered_name_plain:
  assumes "0x2F \<notin> set (pname original)"
  shows "0x2F \<notin> set (numbered_name original k)" "numbered_name original k \<noteq> []"
    "numbered_name original k \<noteq> str ''.''" "numbered_name original k \<noteq> str ''..''"
proof -
  from assms stem_set [of "pname original"] suffix_of_set [of "pname original"]
  have "0x2F \<notin> set (stem (pname original))" "0x2F \<notin> set (suffix_of (pname original))" by auto
  moreover have "0x2F \<notin> set (dec k)" using dec_digits [of "0x2F" k] by auto
  ultimately show "0x2F \<notin> set (numbered_name original k)"
    by (simp add: numbered_name_def str_def)
  show "numbered_name original k \<noteq> []" by (simp add: numbered_name_def str_def)
  have "0x5F \<in> set (numbered_name original k)" by (simp add: numbered_name_def str_def)
  then show "numbered_name original k \<noteq> str ''.''" "numbered_name original k \<noteq> str ''..''"
    by (auto simp: str_def)
qed

lemma root_of_free: "0x2F \<notin> set s \<Longrightarrow> root_of s = []"
  by (cases s) (simp_all add: root_of_def)

lemma numbered_eq:
  assumes "0x2F \<notin> set (pname original)"
  shows "numbered original k = \<lparr>proot = [], pparts = [download_dir, numbered_name original k]\<rparr>"
proof -
  note n = numbered_name_plain [OF assms, of k]
  from n(1) have "root_of (numbered_name original k) = []" by (rule root_of_free)
  moreover from n have "components (numbered_name original k) = [numbered_name original k]"
    by (simp add: components_def split_on_free)
  ultimately show ?thesis by (simp add: numbered_def path_join_def download_path_eq)
qed

lemma entry_of_numbered:
  assumes "0x2F \<notin> set (pname original)"
  shows "entry_of (numbered original k) = Some (numbered_name original k)"
  using numbered_name_plain(4) [OF assms, of k]
  by (simp add: numbered_eq [OF assms] entry_of_def)

lemma pname_numbered:
  assumes "0x2F \<notin> set (pname original)"
  shows "pname (numbered original k) = numbered_name original k"
  by (simp add: numbered_eq [OF assms] pname_def)

lemma path_exists_dom: "path_exists l n \<longleftrightarrow> n \<in> fst ` set l"
  by (simp add: path_exists_def map_of_eq_None_iff)

lemma free_path_None:
  assumes "0x2F \<notin> set (pname original)"
  shows "free_path fuel nt l original filepath counter = None \<Longrightarrow>
   \<forall>k. counter \<le> k \<longrightarrow> k + 1 < counter + fuel \<longrightarrow> path_exists l (numbered_name original k)"
proof (induction fuel arbitrary: filepath counter)
  case 0
  then show ?case by simp
next
  case (Suc fuel)
  from Suc.prems have r: "free_path fuel nt l original (numbered original counter) (counter + 1) = None"
    by (simp split: option.splits bool.splits)
  note ih = Suc.IH [OF r]
  show ?case
  proof (intro allI impI)
    fix k assume k: "counter \<le> k" "k + 1 < counter + Suc fuel"
    show "path_exists l (numbered_name original k)"
    proof (cases "k = counter")
      case True
      with k have "0 < fuel" by simp
      then obtain f where f: "fuel = Suc f" by (cases fuel) simp_all
      from r have "exists_py nt l (numbered original counter) = Some True"
        unfolding f by (simp split: option.splits bool.splits)
      then show ?thesis unfolding True
        by (simp add: exists_py_def entry_of_numbered [OF assms] split: if_splits)
    next
      case False
      with k have "counter + 1 \<le> k" "k + 1 < counter + 1 + fuel" by simp_all
      with ih show ?thesis by blast
    qed
  qed
qed

lemma unique_path_total:
  "\<exists>s. unique_path nt l (path_join download_path filename) = Some s"
proof (cases "unique_path nt l (path_join download_path filename)")
  case None
  let ?o = "path_join download_path filename"
  have ns: "0x2F \<notin> set (pname ?o)"
    by (rule pname_no_slash) (use joined_no_slash in blast)
  from free_path_None [OF ns None [unfolded unique_path_def]]
  have "\<forall>k. 1 \<le> k \<longrightarrow> k \<le> length l + 1 \<longrightarrow> path_exists l (numbered_name ?o k)"
    by simp
  then have sub: "numbered_name ?o ` {1..length l + 1} \<subseteq> fst ` set l"
    by (auto simp: path_exists_dom)
  have "inj_on (numbered_name ?o) {1..length l + 1}"
    by (rule inj_onI) (rule numbered_name_inj)
  then have "card (numbered_name ?o ` {1..length l + 1}) = length l + 1"
    by (simp add: card_image)
  moreover have "card (numbered_name ?o ` {1..length l + 1}) \<le> card (fst ` set l)"
    using sub by (intro card_mono) simp_all
  moreover have "card (fst ` set l) \<le> length l"
    by (metis card_image_le card_length le_trans List.finite_set)
  ultimately show ?thesis by linarith
next
  case (Some p)
  then show ?thesis by blast
qed


lemma free_path_Free:
  "free_path fuel nt l original filepath counter = Some (Free p) \<Longrightarrow>
   exists_py nt l p = Some False \<and> (p = filepath \<or> (\<exists>k. p = numbered original k))"
proof (induction fuel arbitrary: filepath counter)
  case 0
  then show ?case by simp
next
  case (Suc fuel)
  show ?case
  proof (cases "exists_py nt l filepath")
    case None
    with Suc.prems show ?thesis by simp
  next
    case (Some b)
    show ?thesis
    proof (cases b)
      case True
      with Some Suc.prems
      have "free_path fuel nt l original (numbered original counter) (counter + 1) = Some (Free p)"
        by simp
      from Suc.IH [OF this] show ?thesis by blast
    next
      case False
      with Some Suc.prems show ?thesis by simp
    qed
  qed
qed

lemma split_on_nonempty: "split_on sep s \<noteq> []"
  by (induction s) (auto split: list.splits)

lemma last_split_on_append:
  "sep \<notin> set x \<Longrightarrow> last (split_on sep (s @ x)) = last (split_on sep s) @ x"
proof (induction s)
  case Nil
  then show ?case by (simp add: split_on_free)
next
  case (Cons c s)
  show ?case
  proof (cases "c = sep")
    case True
    with Cons show ?thesis by (simp add: split_on_nonempty)
  next
    case False
    obtain p ps where a: "split_on sep (s @ x) = p # ps"
      using split_on_nonempty [of sep "s @ x"] by (cases "split_on sep (s @ x)") auto
    obtain q qs where b: "split_on sep s = q # qs"
      using split_on_nonempty [of sep s] by (cases "split_on sep s") auto
    from Cons a b have l: "last (p # ps) = last (q # qs) @ x" by simp
    have len: "length (split_on sep (t @ x)) = length (split_on sep t)" for t
      using Cons.prems by (induction t) (auto simp: split_on_free split: list.splits)
    from len [of s] a b have "ps = [] \<longleftrightarrow> qs = []" by auto
    with l False a b show ?thesis by (auto split: if_splits)
  qed
qed

lemma components_nonempty: "x \<in> set (components s) \<Longrightarrow> x \<noteq> []"
  by (simp add: components_def)

lemma pname_joined:
  assumes "e \<noteq> []" "0x2F \<notin> set e"
  shows "pname (path_join download_path (t @ str ''.'' @ e)) \<noteq> []"
proof -
  let ?f = "t @ str ''.'' @ e"
  have "0x2F \<notin> set (str ''.'' @ e)" using assms(2) by (simp add: str_def)
  then have "last (split_on 0x2F (t @ (str ''.'' @ e))) = last (split_on 0x2F t) @ (str ''.'' @ e)"
    by (rule last_split_on_append)
  moreover have "last (split_on 0x2F t) @ (str ''.'' @ e) \<noteq> []"
    "last (split_on 0x2F t) @ (str ''.'' @ e) \<noteq> str ''.''"
    using assms(1) by (auto simp: str_def append_eq_Cons_conv)
  moreover have "last (split_on 0x2F ?f) \<in> set (split_on 0x2F ?f)"
    using split_on_nonempty [of "0x2F" ?f] by (rule last_in_set)
  ultimately have "last (split_on 0x2F ?f) \<in> set (components ?f)"
    by (simp add: components_def)
  then have ne: "components ?f \<noteq> []" by auto
  then have "last (components ?f) \<noteq> []"
    using components_nonempty [of "last (components ?f)" ?f] by simp
  with ne show ?thesis
    by (simp add: pname_def path_join_def Path_def download_path_eq)
qed

lemma outtmpl_for_None: "outtmpl_for p = None \<longleftrightarrow> pname p = []"
  by (simp add: outtmpl_for_def with_suffix_empty_def)

lemma download_with_ytdlp_events:
  "outtmpl_for filepath = Some tmpl \<Longrightarrow>
   snd (snd (download_with_ytdlp nt ev w u filepath)) = [YtdlpDownload u tmpl]"
  by (simp add: download_with_ytdlp_def split: ytdlp_result.splits glob_result.splits)

lemma download_with_ytdlp_unnamed:
  "outtmpl_for filepath = None \<Longrightarrow> download_with_ytdlp nt ev w u filepath = (False, w, [])"
  by (simp add: download_with_ytdlp_def)

text \<open>
  C7, as the code has it. \<open>_download_file\<close> looks for a free file name, and the search
  ends. When the existence test raises, the fetch fails and no request is made. When a
  name is found and the direct attempt on the media URL \<open>video_info['url']\<close> works, the
  resolver is not run. When the direct attempt fails, the resolver is run in download mode
  on that same media URL; the page URL is not among the arguments of the fetcher. The one
  exception is a path without a name, for which the output template cannot be built and
  the fetch fails after the direct attempt; it does not arise when the extension is not
  empty and has no slash, as with every extractor.
\<close>

theorem fallback_uses_media_reference:
  "\<exists>s. unique_path nt (listing w) (path_join download_path (download_filename info)) = Some s
     \<and> (s = StatError \<longrightarrow> download_file nt ev w info = (False, w, []))
     \<and> (\<forall>filepath. s = Free filepath \<longrightarrow>
          exists_py nt (listing w) filepath = Some False
          \<and> (\<forall>l1. http_get nt (vi_url info) filepath (listing w) = Streamed l1 \<longrightarrow>
                snd (snd (download_file nt ev w info)) = [HttpGet (vi_url info)])
          \<and> (\<forall>l1 tmpl. http_get nt (vi_url info) filepath (listing w) = Broken l1
                  \<and> outtmpl_for filepath = Some tmpl \<longrightarrow>
                snd (snd (download_file nt ev w info))
                  = [HttpGet (vi_url info), YtdlpDownload (vi_url info) tmpl])
          \<and> (\<forall>l1. http_get nt (vi_url info) filepath (listing w) = Broken l1
                  \<and> outtmpl_for filepath = None \<longrightarrow>
                download_file nt ev w info = (False, w\<lparr>listing := l1\<rparr>, [HttpGet (vi_url info)]))
          \<and> ((\<forall>e. vi_ext info = Some e \<longrightarrow> e \<noteq> [] \<and> 0x2F \<notin> set e) \<longrightarrow>
                outtmpl_for filepath \<noteq> None))"
proof -
  let ?o = "path_join download_path (download_filename info)"
  from unique_path_total obtain s
    where s: "unique_path nt (listing w) ?o = Some s" by blast
  have ns: "0x2F \<notin> set (pname ?o)"
    by (rule pname_no_slash) (use joined_no_slash in blast)
  have a: "download_file nt ev w info = (False, w, [])" if "s = StatError"
    using that s by (simp add: download_file_def)
  have fr: "free_path (length (listing w) + 2) nt (listing w) ?o ?o 1 = Some s"
    using s unfolding unique_path_def .
  have b: "exists_py nt (listing w) p = Some False \<and> (p = ?o \<or> (\<exists>k. p = numbered ?o k))"
    if "s = Free p" for p
    using fr unfolding that by (rule free_path_Free)
  have c: "snd (snd (download_file nt ev w info)) = [HttpGet (vi_url info)]"
    if "s = Free p" "http_get nt (vi_url info) p (listing w) = Streamed l1" for p l1
    using that s by (simp add: download_file_def)
  have d: "snd (snd (download_file nt ev w info))
      = [HttpGet (vi_url info), YtdlpDownload (vi_url info) tmpl]"
    if "s = Free p" "http_get nt (vi_url info) p (listing w) = Broken l1"
      "outtmpl_for p = Some tmpl" for p l1 tmpl
    using that s download_with_ytdlp_events [OF that(3), of nt ev "w\<lparr>listing := l1\<rparr>" "vi_url info"]
    by (auto simp: download_file_def split: prod.splits)
  have e: "download_file nt ev w info = (False, w\<lparr>listing := l1\<rparr>, [HttpGet (vi_url info)])"
    if "s = Free p" "http_get nt (vi_url info) p (listing w) = Broken l1"
      "outtmpl_for p = None" for p l1
    using that s by (simp add: download_file_def download_with_ytdlp_unnamed)
  have f: "outtmpl_for p \<noteq> None"
    if sf: "s = Free p" and ex: "\<forall>e. vi_ext info = Some e \<longrightarrow> e \<noteq> [] \<and> 0x2F \<notin> set e" for p
  proof -
    from b [OF sf] have "p = ?o \<or> (\<exists>k. p = numbered ?o k)" by simp
    then have "pname p \<noteq> []"
    proof
      assume p: "p = ?o"
      obtain x where x: "download_filename info = vi_title info @ str ''.'' @ x"
        "x \<noteq> []" "0x2F \<notin> set x"
        using ex by (cases "vi_ext info") (auto simp: download_filename_def str_def)
      show ?thesis unfolding p x(1) using x(2,3) by (rule pname_joined)
    next
      assume "\<exists>k. p = numbered ?o k"
      then obtain k where "p = numbered ?o k" by blast
      then show ?thesis using pname_numbered [OF ns, of k] numbered_name_plain(2) [OF ns, of k]
        by simp
    qed
    then show ?thesis by (simp add: outtmpl_for_None)
  qed
  show ?thesis
    by (rule exI [of _ s]) (use s a b c d e f in blast)
qed

lemma clip_path:
  "path_join download_path (download_filename clip_info)
     = \<lparr>proot = [], pparts = [str ''downloads'', str ''clip.mp4'']\<rparr>"
  by (simp add: path_join_def download_path_eq download_filename_def clip_info_def root_of_def
      components_def download_dir_def str_def)

lemma unique_path_free:
  "\<not> stat_raises nt (path_join download_path (download_filename clip_info)) [] \<Longrightarrow>
   unique_path nt (listing empty_dir) (path_join download_path (download_filename clip_info))
     = Some (Free \<lparr>proot = [], pparts = [str ''downloads'', str ''clip.mp4'']\<rparr>)"
  unfolding clip_path
  by (simp add: unique_path_def empty_dir_def exists_py_def entry_of_def path_exists_def
      download_dir_def numeral_2_eq_2 str_def)

lemma unique_path_clip:
  "unique_path broken_net (listing empty_dir) (path_join download_path (download_filename clip_info))
     = Some (Free \<lparr>proot = [], pparts = [str ''downloads'', str ''clip.mp4'']\<rparr>)"
  by (rule unique_path_free) (simp add: broken_net_def)

lemma outtmpl_clip:
  "outtmpl_for \<lparr>proot = [], pparts = [str ''downloads'', str ''clip.mp4'']\<rparr>
     = Some (str ''downloads/clip.%(ext)s'')"
  by (simp add: outtmpl_for_def with_suffix_empty_def pname_def path_str_def stem_def last_dot_def
      str_def Let_def)

lemma media_url_not_page: "media_url \<noteq> bilibili_url"
  by (simp add: media_url_def bilibili_url_def str_def)

lemma download_file_broken:
  "download_file broken_net ev empty_dir clip_info =
     (False, empty_dir, [HttpGet media_url, YtdlpDownload media_url (str ''downloads/clip.%(ext)s'')])"
proof -
  have "download_with_ytdlp broken_net ev empty_dir media_url
        \<lparr>proot = [], pparts = [str ''downloads'', str ''clip.mp4'']\<rparr>
      = (False, empty_dir, [YtdlpDownload media_url (str ''downloads/clip.%(ext)s'')])"
    by (simp add: download_with_ytdlp_def outtmpl_clip) (simp add: broken_net_def empty_dir_def)
  moreover have "http_get broken_net (vi_url clip_info)
        \<lparr>proot = [], pparts = [str ''downloads'', str ''clip.mp4'']\<rparr> (listing empty_dir)
      = Broken (listing empty_dir)" "vi_url clip_info = media_url"
    by (simp_all add: broken_net_def clip_info_def)
  moreover have "empty_dir\<lparr>listing := listing empty_dir\<rparr> = empty_dir" by simp
  ultimately show ?thesis
    by (simp add: download_file_def unique_path_clip)
qed

lemma select_handler_bilibili: "select_handler (lower (str ''www.bilibili.com'')) = Some Bilibili"
  by (simp add: select_handler_def vd_supported_sites_def lower_def str_def)

text \<open>
  C7, counterexample: a Bilibili page whose extractor resolves a media URL on another
  host; the first resolver run and the direct stream fail. The fallback runs the resolver
  on the media URL, not on the page URL.
\<close>

theorem fallback_not_on_page_url:
  "snd (snd (download_video broken_net healthy_env empty_dir bilibili_url))
     = [YtdlpDownload bilibili_url (download_dir @ str ''/%(title)s.%(ext)s''),
        HttpGet media_url,
        YtdlpDownload media_url (str ''downloads/clip.%(ext)s'')]
   \<and> media_url \<noteq> bilibili_url"
proof -
  have a: "download_video_with_ytdlp broken_net healthy_env empty_dir bilibili_url
      = (False, empty_dir, [YtdlpDownload bilibili_url (download_dir @ str ''/%(title)s.%(ext)s'')])"
    by (simp add: download_video_with_ytdlp_def Let_def) (simp add: broken_net_def empty_dir_def)
  have b: "urlparse broken_net bilibili_url = (str ''https'', str ''www.bilibili.com'')"
    "extractors broken_net Bilibili bilibili_url (listing empty_dir) = (Extracted clip_info, listing empty_dir)"
    by (simp_all add: broken_net_def)
  have c: "str ''https'' \<noteq> []" "str ''www.bilibili.com'' \<noteq> []" by (simp_all add: str_def)
  have "download_video broken_net healthy_env empty_dir bilibili_url
      = (False, empty_dir, [YtdlpDownload bilibili_url (download_dir @ str ''/%(title)s.%(ext)s''),
          HttpGet media_url, YtdlpDownload media_url (str ''downloads/clip.%(ext)s'')])"
    by (simp add: download_video_def a b c select_handler_bilibili download_file_broken)
  with media_url_not_page show ?thesis by simp
qed

lemma unique_path_unnamed:
  "unique_path broken_net (listing empty_dir) (path_join download_path (download_filename unnamed_info))
     = Some (Free \<lparr>proot = str ''/'', pparts = []\<rparr>)"
proof -
  have a: "path_join download_path (download_filename unnamed_info) = \<lparr>proot = str ''/'', pparts = []\<rparr>"
    by (simp add: path_join_def Path_def download_filename_def unnamed_info_def root_of_def
        components_def str_def)
  show ?thesis unfolding a
    by (simp add: unique_path_def empty_dir_def exists_py_def broken_net_def entry_of_def
        numeral_2_eq_2)
qed

text \<open>
  The rule on fetches into the empty directory: one whose direct attempt fails, one whose
  direct attempt works, one for which the file system refuses the path, and one whose
  title \<open>/\<close> and empty extension give a path without a name.
\<close>

theorem fallback_uses_media_reference_witness:
  "unique_path broken_net (listing empty_dir) (path_join download_path (download_filename clip_info))
     = Some (Free \<lparr>proot = [], pparts = [str ''downloads'', str ''clip.mp4'']\<rparr>)
   \<and> http_get broken_net (vi_url clip_info)
        \<lparr>proot = [], pparts = [str ''downloads'', str ''clip.mp4'']\<rparr> (listing empty_dir)
       = Broken (listing empty_dir)
   \<and> outtmpl_for \<lparr>proot = [], pparts = [str ''downloads'', str ''clip.mp4'']\<rparr>
       = Some (str ''downloads/clip.%(ext)s'')
   \<and> vi_ext clip_info = Some (str ''mp4'') \<and> str ''mp4'' \<noteq> [] \<and> 0x2F \<notin> set (str ''mp4'')
   \<and> vi_url clip_info = media_url
   \<and> snd (snd (download_file broken_net healthy_env empty_dir clip_info))
       = [HttpGet media_url, YtdlpDownload media_url (str ''downloads/clip.%(ext)s'')]
   \<and> http_get streaming_net (vi_url clip_info)
        \<lparr>proot = [], pparts = [str ''downloads'', str ''clip.mp4'']\<rparr> (listing empty_dir)
       = Streamed (listing empty_dir)
   \<and> snd (snd (download_file streaming_net healthy_env empty_dir clip_info)) = [HttpGet media_url]
   \<and> unique_path refusing_net (listing empty_dir) (path_join download_path (download_filename clip_info))
       = Some StatError
   \<and> download_file refusing_net healthy_env empty_dir clip_info = (False, empty_dir, [])
   \<and> unique_path broken_net (listing empty_dir) (path_join download_path (download_filename unnamed_info))
       = Some (Free \<lparr>proot = str ''/'', pparts = []\<rparr>)
   \<and> outtmpl_for \<lparr>proot = str ''/'', pparts = []\<rparr> = None
   \<and> download_file broken_net healthy_env empty_dir unnamed_info = (False, empty_dir, [HttpGet media_url])"
proof -
  let ?p = "\<lparr>proot = [], pparts = [str ''downloads'', str ''clip.mp4'']\<rparr>"
  let ?q = "\<lparr>proot = str ''/'', pparts = []\<rparr>"
  have h: "http_get broken_net (vi_url clip_info) ?p (listing empty_dir) = Broken (listing empty_dir)"
    by (simp add: broken_net_def)
  have u: "vi_url clip_info = media_url" "vi_url unnamed_info = media_url"
    by (simp_all add: clip_info_def unnamed_info_def)
  have x: "vi_ext clip_info = Some (str ''mp4'')" "str ''mp4'' \<noteq> []" "0x2F \<notin> set (str ''mp4'')"
    by (simp_all add: clip_info_def str_def)
  \<comment> \<open>the direct attempt fails\<close>
  from fallback_uses_media_reference [of broken_net empty_dir clip_info healthy_env]
    unique_path_clip
  have "\<forall>l1 tmpl. http_get broken_net (vi_url clip_info) ?p (listing empty_dir) = Broken l1
                  \<and> outtmpl_for ?p = Some tmpl \<longrightarrow>
                snd (snd (download_file broken_net healthy_env empty_dir clip_info))
                  = [HttpGet (vi_url clip_info), YtdlpDownload (vi_url clip_info) tmpl]"
    by simp
  with h outtmpl_clip
  have "snd (snd (download_file broken_net healthy_env empty_dir clip_info))
       = [HttpGet (vi_url clip_info), YtdlpDownload (vi_url clip_info) (str ''downloads/clip.%(ext)s'')]"
    by blast
  then have e: "snd (snd (download_file broken_net healthy_env empty_dir clip_info))
       = [HttpGet media_url, YtdlpDownload media_url (str ''downloads/clip.%(ext)s'')]"
    unfolding u .
  \<comment> \<open>the direct attempt works\<close>
  have us: "unique_path streaming_net (listing empty_dir)
        (path_join download_path (download_filename clip_info)) = Some (Free ?p)"
    by (rule unique_path_free) (simp add: streaming_net_def broken_net_def)
  have hs: "http_get streaming_net (vi_url clip_info) ?p (listing empty_dir) = Streamed (listing empty_dir)"
    by (simp add: streaming_net_def)
  from fallback_uses_media_reference [of streaming_net empty_dir clip_info healthy_env] us
  have "\<forall>l1. http_get streaming_net (vi_url clip_info) ?p (listing empty_dir) = Streamed l1 \<longrightarrow>
      snd (snd (download_file streaming_net healthy_env empty_dir clip_info)) = [HttpGet (vi_url clip_info)]"
    by simp
  with hs have "snd (snd (download_file streaming_net healthy_env empty_dir clip_info))
      = [HttpGet (vi_url clip_info)]" by blast
  then have st: "snd (snd (download_file streaming_net healthy_env empty_dir clip_info)) = [HttpGet media_url]"
    unfolding u .
  \<comment> \<open>the existence test raises\<close>
  have r: "unique_path refusing_net (listing empty_dir)
        (path_join download_path (download_filename clip_info)) = Some StatError"
    by (simp add: unique_path_def exists_py_def refusing_net_def empty_dir_def numeral_2_eq_2)
  from fallback_uses_media_reference [of refusing_net empty_dir clip_info healthy_env] r
  have g: "download_file refusing_net healthy_env empty_dir clip_info = (False, empty_dir, [])"
    by auto
  \<comment> \<open>a path without a name\<close>
  have o: "outtmpl_for ?q = None" by (simp add: outtmpl_for_def with_suffix_empty_def pname_def)
  have hq: "http_get broken_net (vi_url unnamed_info) ?q (listing empty_dir) = Broken (listing empty_dir)"
    by (simp add: broken_net_def)
  from fallback_uses_media_reference [of broken_net empty_dir unnamed_info healthy_env]
    unique_path_unnamed
  have "\<forall>l1. http_get broken_net (vi_url unnamed_info) ?q (listing empty_dir) = Broken l1
                  \<and> outtmpl_for ?q = None \<longrightarrow>
                download_file broken_net healthy_env empty_dir unnamed_info
                  = (False, empty_dir\<lparr>listing := l1\<rparr>, [HttpGet (vi_url unnamed_info)])"
    by simp
  with hq o have "download_file broken_net healthy_env empty_dir unnamed_info
      = (False, empty_dir\<lparr>listing := listing empty_dir\<rparr>, [HttpGet (vi_url unnamed_info)])"
    by blast
  then have n: "download_file broken_net healthy_env empty_dir unnamed_info
      = (False, empty_dir, [HttpGet media_url])"
    unfolding u by simp
  from unique_path_clip h outtmpl_clip x u(1) e hs st r g unique_path_unnamed o n
  show ?thesis by (intro conjI)
qed

end
